theory Spec2Isabelle
  imports Complex_Main "HOL-Library.Multiset" "HOL-Library.AList" "HOL-Library.Product_Lexorder" "HOL-Library.Log_Nat"
begin

section \<open>The MWS revenue page (\<open>src/pages/MwsRevenuePage.tsx\<close>)\<close>

text \<open>
  Amounts are JavaScript numbers, that is IEEE 754 doubles. The memo \<open>revenueData\<close> is
  given twice: first with exact arithmetic on rationals, the reading in which the
  specification writes its formula, and below as \<open>revenueData_double\<close> with every
  operation rounded as the source's arithmetic rounds it.

  A \<open>Date\<close> object is compared through its time value, a count of milliseconds, or is an
  Invalid Date, for which every comparison is false. The constructor \<open>new Date(text)\<close> is a
  parameter \<open>newDate\<close> of the model.
\<close>

datatype date = Date int | InvalidDate

fun date_ge :: "date \<Rightarrow> date \<Rightarrow> bool" where
  "date_ge (Date a) (Date b) = (b \<le> a)"
| "date_ge _ _ = False"

fun date_le :: "date \<Rightarrow> date \<Rightarrow> bool" where
  "date_le (Date a) (Date b) = (a \<le> b)"
| "date_le _ _ = False"

text \<open>
  The fields of \<open>Lead\<close>, \<open>AdSpend\<close> and \<open>Client\<close> that the page reads. \<open>lead_data\<close> is the
  \<open>Record<string, string>\<close> of form answers, kept as an association list; \<open>lead_value\<close> is
  optional in the source.
\<close>

record Lead =
  lead_data :: "(string \<times> string) list"
  created_at :: string
  status :: string
  lead_value :: "rat option"

record AdSpend =
  amount :: rat
  spend_date :: string

record Client =
  leads :: "Lead list"
  adSpends :: "AdSpend list"
  mws_fixed_fee :: "rat option"
  mws_profit_percentage :: "rat option"

record dateRange =
  range_start :: "date option"
  range_end :: "date option"

record revenue =
  clientRevenue :: rat
  totalAdSpend :: rat
  clientProfit :: rat
  mwsFixed :: rat
  mwsPercentage :: rat
  mwsProfitShare :: rat
  mwsRevenue :: rat

text \<open>\<open>x || 0\<close> on an optional number: undefined and 0 both give 0.\<close>

definition or_zero :: "rat option \<Rightarrow> rat" where
  "or_zero v = (case v of None \<Rightarrow> 0 | Some x \<Rightarrow> x)"

text \<open>
  \<open>l.data._revenue_attribution_date || l.created_at\<close>: the answer stored under the key,
  unless it is missing or the empty string.
\<close>

definition attribution_text :: "Lead \<Rightarrow> string" where
  "attribution_text l =
     (case map_of (lead_data l) ''_revenue_attribution_date'' of
        None \<Rightarrow> created_at l
      | Some s \<Rightarrow> if s = [] then created_at l else s)"

text \<open>
  The filter predicate shared by both filters:
  \<open>(!dateRange.start || d >= dateRange.start) && (!dateRange.end || d <= dateRange.end)\<close>.
\<close>

definition in_range :: "dateRange \<Rightarrow> date \<Rightarrow> bool" where
  "in_range r d =
     ((case range_start r of None \<Rightarrow> True | Some s \<Rightarrow> date_ge d s) \<and>
      (case range_end r of None \<Rightarrow> True | Some e \<Rightarrow> date_le d e))"

definition filtered_leads :: "(string \<Rightarrow> date) \<Rightarrow> Client \<Rightarrow> dateRange \<Rightarrow> Lead list" where
  "filtered_leads newDate client r =
     (if range_start r \<noteq> None \<or> range_end r \<noteq> None
      then filter (\<lambda>l. in_range r (newDate (attribution_text l))) (leads client)
      else leads client)"

definition filtered_spends :: "(string \<Rightarrow> date) \<Rightarrow> Client \<Rightarrow> dateRange \<Rightarrow> AdSpend list" where
  "filtered_spends newDate client r =
     (if range_start r \<noteq> None \<or> range_end r \<noteq> None
      then filter (\<lambda>s. in_range r (newDate (spend_date s))) (adSpends client)
      else adSpends client)"

text \<open>The body of the \<open>revenueData\<close> memo; the two \<open>reduce\<close> calls are left folds from 0.\<close>

definition revenueData :: "(string \<Rightarrow> date) \<Rightarrow> Client \<Rightarrow> dateRange \<Rightarrow> revenue" where
  "revenueData newDate client r =
     (let wonLeads = filter (\<lambda>l. status l = ''Vinto'') (filtered_leads newDate client r);
          cRevenue = foldl (\<lambda>sum l. sum + or_zero (lead_value l)) 0 wonLeads;
          tAdSpend = foldl (\<lambda>sum s. sum + amount s) 0 (filtered_spends newDate client r);
          cProfit = cRevenue - tAdSpend;
          fixed = or_zero (mws_fixed_fee client);
          percentage = or_zero (mws_profit_percentage client);
          share = (if cProfit > 0 then (cProfit * percentage) / 100 else 0)
      in \<lparr> clientRevenue = cRevenue, totalAdSpend = tAdSpend, clientProfit = cProfit,
           mwsFixed = fixed, mwsPercentage = percentage, mwsProfitShare = share,
           mwsRevenue = fixed + share \<rparr>)"

text \<open>
  The commission as section 4.3 of the specification words it, for an inclusive window
  \<open>[start, end]\<close>: a second definition, written from the specification, against which
  \<open>revenueData\<close> is compared.
\<close>

definition spec_attribution_date :: "(string \<Rightarrow> date) \<Rightarrow> Lead \<Rightarrow> date" where
  "spec_attribution_date newDate l =
     (case map_of (lead_data l) ''_revenue_attribution_date'' of
        Some s \<Rightarrow> if s \<noteq> [] then newDate s else newDate (created_at l)
      | None \<Rightarrow> newDate (created_at l))"

definition spec_in_window :: "int \<Rightarrow> int \<Rightarrow> date \<Rightarrow> bool" where
  "spec_in_window start end d = (case d of Date t \<Rightarrow> start \<le> t \<and> t \<le> end | InvalidDate \<Rightarrow> False)"

definition spec_wonRevenue :: "(string \<Rightarrow> date) \<Rightarrow> Client \<Rightarrow> int \<Rightarrow> int \<Rightarrow> rat" where
  "spec_wonRevenue newDate client start end =
     sum_list (map (\<lambda>l. or_zero (lead_value l))
       (filter (\<lambda>l. status l = ''Vinto'' \<and> spec_in_window start end (spec_attribution_date newDate l))
          (leads client)))"

definition spec_adSpend :: "(string \<Rightarrow> date) \<Rightarrow> Client \<Rightarrow> int \<Rightarrow> int \<Rightarrow> rat" where
  "spec_adSpend newDate client start end =
     sum_list (map amount
       (filter (\<lambda>s. spec_in_window start end (newDate (spend_date s))) (adSpends client)))"


definition window :: "int \<Rightarrow> int \<Rightarrow> dateRange" where
  "window start end = \<lparr> range_start = Some (Date start), range_end = Some (Date end) \<rparr>"

text \<open>
  The example of section 8: fixed fee 100, percentage 20, one Won lead of value 1000 and
  one ad spend of 200, both dated inside the window.
\<close>

definition example_newDate :: "string \<Rightarrow> date" where
  "example_newDate t =
     (if t = ''2024-05-10'' then Date 10 else if t = ''2024-05-12'' then Date 12 else InvalidDate)"


subsection \<open>The arithmetic of JavaScript numbers\<close>

text \<open>
  A double is kept as the rational number it denotes. Every arithmetic operation of the
  source gives the exact result rounded to 53 significant bits, to the nearest
  representable number and to the even significand on a tie; a decimal literal denotes
  the rounding of its decimal value. The exponent range is not bounded here: there is no
  overflow to Infinity, no subnormal number and no NaN, which is the IEEE 754 result
  for absolute values between \<open>2^-1022\<close> and \<open>2^1023\<close>, far outside any amount of money.
  An amount handed to these operations is meant to be a double already; one that is not
  is rounded by the first operation on it.
\<close>

definition pow2 :: "int \<Rightarrow> rat" where
  "pow2 e = (if 0 \<le> e then 2 ^ nat e else 1 / 2 ^ nat (- e))"

definition round_half_even :: "rat \<Rightarrow> int" where
  "round_half_even r =
     (let f = \<lfloor>r\<rfloor>; d = r - of_int f
      in if d < 1 / 2 then f else if 1 / 2 < d then f + 1 else if even f then f else f + 1)"

text \<open>The binary exponent \<open>\<lfloor>log\<^sub>2 a\<rfloor>\<close> of a positive rational, from the bit lengths of its fraction.\<close>

definition exponent2 :: "rat \<Rightarrow> int" where
  "exponent2 a =
     (case quotient_of a of
        (p, q) \<Rightarrow> (let d = bitlen p - bitlen q in if pow2 d \<le> a then d else d - 1))"

definition round53 :: "rat \<Rightarrow> rat" where
  "round53 x =
     (if x = 0 then 0
      else (let e = exponent2 \<bar>x\<bar> - 52
            in sgn x * of_int (round_half_even (\<bar>x\<bar> / pow2 e)) * pow2 e))"

definition dadd :: "rat \<Rightarrow> rat \<Rightarrow> rat" where
  "dadd a b = round53 (a + b)"

definition dsub :: "rat \<Rightarrow> rat \<Rightarrow> rat" where
  "dsub a b = round53 (a - b)"

definition dmul :: "rat \<Rightarrow> rat \<Rightarrow> rat" where
  "dmul a b = round53 (a * b)"

definition ddiv :: "rat \<Rightarrow> rat \<Rightarrow> rat" where
  "ddiv a b = round53 (a / b)"

text \<open>The double that a decimal literal such as \<open>0.1\<close> denotes.\<close>

definition dbl :: "rat \<Rightarrow> rat" where
  "dbl q = round53 q"

subsection \<open>The revenue memo on doubles\<close>

text \<open>
  The body of the \<open>revenueData\<close> memo once more, with the source's operations: the two
  \<open>reduce\<close> calls add in array order, from 0, and round after every addition.
\<close>

definition revenueData_double :: "(string \<Rightarrow> date) \<Rightarrow> Client \<Rightarrow> dateRange \<Rightarrow> revenue" where
  "revenueData_double newDate client r =
     (let wonLeads = filter (\<lambda>l. status l = ''Vinto'') (filtered_leads newDate client r);
          cRevenue = foldl (\<lambda>sum l. dadd sum (or_zero (lead_value l))) 0 wonLeads;
          tAdSpend = foldl (\<lambda>sum s. dadd sum (amount s)) 0 (filtered_spends newDate client r);
          cProfit = dsub cRevenue tAdSpend;
          fixed = or_zero (mws_fixed_fee client);
          percentage = or_zero (mws_profit_percentage client);
          share = (if cProfit > 0 then ddiv (dmul cProfit percentage) 100 else 0)
      in \<lparr> clientRevenue = cRevenue, totalAdSpend = tAdSpend, clientProfit = cProfit,
           mwsFixed = fixed, mwsPercentage = percentage, mwsProfitShare = share,
           mwsRevenue = dadd fixed share \<rparr>)"

text \<open>
  A client whose amounts are whole numbers with absolute values summing to at most
  \<open>2^53\<close>: on such amounts no sum of the memo rounds.
\<close>

definition whole :: "rat \<Rightarrow> bool" where
  "whole x = (of_int \<lfloor>x\<rfloor> = x)"

definition whole_amounts :: "Client \<Rightarrow> bool" where
  "whole_amounts c =
     (list_all (\<lambda>l. whole (or_zero (lead_value l))) (leads c) \<and>
      list_all (\<lambda>s. whole (amount s)) (adSpends c) \<and>
      sum_list (map (\<lambda>l. \<bar>or_zero (lead_value l)\<bar>) (leads c)) +
      sum_list (map (\<lambda>s. \<bar>amount s\<bar>) (adSpends c)) \<le> 2 ^ 53)"

text \<open>
  Clients used to test order and additivity: one with a fixed fee and no leads or spends,
  one without a fixed fee whose lead and ad spend fall in different halves of the window,
  one with three won leads of 0.1, 0.2 and 0.3, one with won leads of 1 and 2 on
  different days, and one with whole amounts, three won leads and two ad spends.
\<close>

definition fee_only_client :: Client where
  "fee_only_client =
     \<lparr> leads = [], adSpends = [], mws_fixed_fee = Some 100, mws_profit_percentage = Some 20 \<rparr>"

definition mixed_client :: Client where
  "mixed_client =
     \<lparr> leads = [\<lparr> lead_data = [], created_at = ''2024-05-10'', status = ''Vinto'',
                  lead_value = Some 1000 \<rparr>],
       adSpends = [\<lparr> amount = 2000, spend_date = ''2024-05-12'' \<rparr>],
       mws_fixed_fee = None,
       mws_profit_percentage = Some 20 \<rparr>"

definition won_lead :: "string \<Rightarrow> rat \<Rightarrow> Lead" where
  "won_lead day v = \<lparr> lead_data = [], created_at = day, status = ''Vinto'', lead_value = Some v \<rparr>"

definition tenths_client :: Client where
  "tenths_client =
     \<lparr> leads = [won_lead ''2024-05-10'' (dbl (1 / 10)), won_lead ''2024-05-12'' (dbl (2 / 10)),
                won_lead ''2024-05-12'' (dbl (3 / 10))],
       adSpends = [], mws_fixed_fee = None, mws_profit_percentage = None \<rparr>"

definition small_client :: Client where
  "small_client =
     \<lparr> leads = [won_lead ''2024-05-10'' 1, won_lead ''2024-05-12'' 2],
       adSpends = [], mws_fixed_fee = None, mws_profit_percentage = Some 20 \<rparr>"

definition whole_client :: Client where
  "whole_client =
     \<lparr> leads = [won_lead ''2024-05-10'' 1000, won_lead ''2024-05-12'' 250,
                won_lead ''2024-05-10'' 40],
       adSpends = [\<lparr> amount = 200, spend_date = ''2024-05-12'' \<rparr>,
                   \<lparr> amount = 90, spend_date = ''2024-05-10'' \<rparr>],
       mws_fixed_fee = Some 100, mws_profit_percentage = Some 20 \<rparr>"

subsection \<open>Payment reconciliation\<close>

datatype modal_error = error_invalid_amount | error_overpayment

record paymentDetails =
  paid_total :: rat
  isTotal :: bool

text \<open>\<open>Math.max(0, totalDue - existingPaidAmount)\<close>, the subtraction being that of doubles.\<close>

definition remainingDue :: "rat \<Rightarrow> rat \<Rightarrow> rat" where
  "remainingDue totalDue existingPaidAmount = max 0 (dsub totalDue existingPaidAmount)"

text \<open>
  \<open>PaymentModal.handleSave\<close>. The last argument is \<open>parseFloat(amount)\<close>, with \<open>None\<close> for
  NaN; the two infinities, which \<open>parseFloat\<close> gives for the text \<open>Infinity\<close> and for a
  numeral beyond the range of doubles, are not among the values of the model. \<open>Inl\<close> is
  the branch that sets the modal's error text and returns without calling \<open>onSave\<close>;
  \<open>Inr\<close> carries the argument of \<open>onSave\<close>. The sum is that of doubles, and
  \<open>existingPaidAmount || 0\<close> is the amount itself, a number here.
\<close>

definition handleSave :: "rat \<Rightarrow> rat \<Rightarrow> bool \<Rightarrow> rat option \<Rightarrow> modal_error + paymentDetails" where
  "handleSave totalDue existingPaidAmount isPaidInFull parsed =
     (case parsed of
        None \<Rightarrow> Inl error_invalid_amount
      | Some paymentAmount \<Rightarrow>
          if paymentAmount < 0 then Inl error_invalid_amount
          else if \<not> isPaidInFull \<and> paymentAmount > remainingDue totalDue existingPaidAmount
          then Inl error_overpayment
          else
            (let totalPaidAmount =
                   dadd existingPaidAmount
                     (if isPaidInFull then remainingDue totalDue existingPaidAmount
                      else paymentAmount)
             in Inr \<lparr> paid_total = totalPaidAmount,
                      isTotal = (isPaidInFull \<or> totalPaidAmount \<ge> totalDue) \<rparr>))"

datatype payment_status = unpaid | partially_paid | paid

record MwsMonthlyRevenue =
  revenue_amount :: rat
  paid_amount :: rat
  payment_status :: payment_status

text \<open>
  \<open>handleSavePayment\<close>: the payload passed to the upsert, as far as amounts and status go
  (the client id and the month string are copied from the page state). The handler runs
  from the modal, which is rendered only while \<open>paymentModalData\<close> is set, so the model
  starts after the guard on it; the first argument is \<open>paymentModalData.totalDue\<close>.
\<close>

definition handleSavePayment :: "rat \<Rightarrow> paymentDetails \<Rightarrow> MwsMonthlyRevenue" where
  "handleSavePayment totalDue d =
     \<lparr> revenue_amount = totalDue,
       paid_amount = paid_total d,
       payment_status = (if isTotal d then paid
                         else if paid_total d > 0 then partially_paid else unpaid) \<rparr>"

text \<open>The modal's save button followed by the page's handler.\<close>

definition savePayment :: "rat \<Rightarrow> rat \<Rightarrow> bool \<Rightarrow> rat option \<Rightarrow> modal_error + MwsMonthlyRevenue" where
  "savePayment totalDue existingPaidAmount isPaidInFull parsed =
     map_sum id (handleSavePayment totalDue) (handleSave totalDue existingPaidAmount isPaidInFull parsed)"

text \<open>
  The reconciliation as the specification words it: the entered amount is clamped to the
  remaining due, and the status is paid exactly when the new paid amount reaches the
  total due.
\<close>

definition spec_new_paid_amount :: "rat \<Rightarrow> rat \<Rightarrow> bool \<Rightarrow> rat \<Rightarrow> rat" where
  "spec_new_paid_amount totalDue existingPaidAmount isPaidInFull entered =
     dadd existingPaidAmount
       (if isPaidInFull then remainingDue totalDue existingPaidAmount
        else min entered (remainingDue totalDue existingPaidAmount))"

definition spec_status :: "rat \<Rightarrow> rat \<Rightarrow> payment_status" where
  "spec_status totalDue newPaid =
     (if totalDue \<le> newPaid then paid else if 0 < newPaid then partially_paid else unpaid)"

section \<open>The data-access class ApiService (\<open>src/unnamed/part_000\<close>)\<close>

subsection \<open>JavaScript values\<close>

text \<open>
  Rows and columns travel as JSON, and the source reads them as \<open>any\<close>. A value is a
  \<open>json\<close>; \<open>undefined\<close> is \<open>None\<close> in a \<open>json option\<close>. An object is the list of its own
  properties in enumeration order, read with \<open>map_of\<close>.
\<close>

datatype json =
  JNull | JBool bool | JNum rat | JStr string | JArr "json list" | JObj "(string \<times> json) list"

type_synonym obj = "(string \<times> json) list"

datatype js_error = Error string | TypeError | RangeError

fun truthy :: "json \<Rightarrow> bool" where
  "truthy JNull = False"
| "truthy (JBool b) = b"
| "truthy (JNum r) = (r \<noteq> 0)"
| "truthy (JStr s) = (s \<noteq> [])"
| "truthy (JArr xs) = True"
| "truthy (JObj kvs) = True"

definition truthy_val :: "json option \<Rightarrow> bool" where
  "truthy_val v = (case v of None \<Rightarrow> False | Some x \<Rightarrow> truthy x)"

text \<open>
  \<open>v.k\<close> for a value \<open>v\<close> that is not null and a property name \<open>k\<close> that no primitive or
  array defines (the names read by the source are \<open>id\<close>, \<open>fields\<close>, \<open>services\<close>, \<open>name\<close>,
  \<open>user_id\<close>, \<open>mws_fixed_fee\<close> and the like): only objects answer.
\<close>

fun js_prop :: "json \<Rightarrow> string \<Rightarrow> json option" where
  "js_prop (JObj kvs) k = map_of kvs k"
| "js_prop _ k = None"

text \<open>Decimal text of a natural number, as a template literal prints an index or a count.\<close>

function show_nat :: "nat \<Rightarrow> string" where
  "show_nat n =
     (if n < 10 then [''0123456789'' ! n]
      else show_nat (n div 10) @ [''0123456789'' ! (n mod 10)])"
  by pat_completeness auto
termination
  by (relation "measure id") auto

declare show_nat.simps [simp del]

text \<open>
  \<open>{...v}\<close>: the own enumerable properties of \<open>v\<close>. Null, booleans and numbers have none;
  a string spreads into its characters and an array into its elements, keyed by index.
\<close>

fun spread :: "json \<Rightarrow> obj" where
  "spread (JObj kvs) = kvs"
| "spread (JArr xs) = zip (map show_nat [0..<length xs]) xs"
| "spread (JStr s) = zip (map show_nat [0..<length s]) (map (\<lambda>c. JStr [c]) s)"
| "spread _ = []"

text \<open>
  Assignment \<open>o.k = v\<close> on a property list. Assigning \<open>undefined\<close> is modelled as removing
  the property: reading it gives \<open>undefined\<close> either way, and JSON serialisation drops it.
\<close>

definition set_prop :: "string \<Rightarrow> json option \<Rightarrow> obj \<Rightarrow> obj" where
  "set_prop k v kvs = (case v of None \<Rightarrow> AList.delete k kvs | Some x \<Rightarrow> AList.update k x kvs)"

definition startsWith :: "string \<Rightarrow> string \<Rightarrow> bool" where
  "startsWith s p = (take (length p) s = p)"

text \<open>\<open>new Set(xs)\<close> spread back into an array: the first occurrence of each element, in order.\<close>

fun uniq :: "'a list \<Rightarrow> 'a list" where
  "uniq [] = []"
| "uniq (x # xs) = x # filter (\<lambda>y. y \<noteq> x) (uniq xs)"

text \<open>
  The answer of the backend client to a query: the \<open>data\<close> (\<open>None\<close> for null) and the
  \<open>error\<close>, of which the source reads the message. A query without \<open>.single()\<close> carries
  a list of row objects, one with \<open>.single()\<close> carries one row object.
\<close>

datatype 'a response = Response (data: "'a option") (error: "string option")

text \<open>
  An awaited call has two outcomes: the promise resolves to a value, or it rejects with an
  error, which \<open>await\<close> throws at the place of the call.
\<close>

datatype 'a awaited = Resolved 'a | Rejected js_error

text \<open>
  \<open>Promise.all\<close> over promises that have settled: the list of the values when all have
  resolved, a rejection otherwise. With several rejections the source sees the one that
  settles first; the model takes the earliest in the order of the array.
\<close>

fun Promise_all :: "(js_error + 'a) list \<Rightarrow> js_error + 'a list" where
  "Promise_all [] = Inr []"
| "Promise_all (Inl e # ps) = Inl e"
| "Promise_all (Inr v # ps) = (case Promise_all ps of Inl e \<Rightarrow> Inl e | Inr vs \<Rightarrow> Inr (v # vs))"

subsection \<open>unpackMwsSettings\<close>

definition is_mws_settings :: "json \<Rightarrow> bool" where
  "is_mws_settings s = (truthy s \<and> js_prop s ''id'' = Some (JStr ''mws_settings''))"

definition not_mws_settings :: "json \<Rightarrow> bool" where
  "not_mws_settings s = (truthy s \<and> js_prop s ''id'' \<noteq> Some (JStr ''mws_settings''))"

text \<open>
  The parse step shared by \<open>unpackMwsSettings\<close> and \<open>updateClient\<close>: a string is parsed
  with \<open>JSON.parse\<close> (a parameter; \<open>None\<close> when it throws), and a failed parse gives the empty
  array.
\<close>

definition parse_if_string :: "(string \<Rightarrow> json option) \<Rightarrow> json option \<Rightarrow> json option" where
  "parse_if_string JSON_parse raw =
     (case raw of
        Some (JStr s) \<Rightarrow> (case JSON_parse s of Some v \<Rightarrow> Some v | None \<Rightarrow> Some (JArr []))
      | _ \<Rightarrow> raw)"

definition array_or_empty :: "json option \<Rightarrow> json list" where
  "array_or_empty raw = (case raw of Some (JArr xs) \<Rightarrow> xs | _ \<Rightarrow> [])"

definition unpackMwsSettings :: "(string \<Rightarrow> json option) \<Rightarrow> json \<Rightarrow> json" where
  "unpackMwsSettings JSON_parse clientData =
     (if \<not> truthy clientData then clientData
      else
        (let clientWithSettings = spread clientData;
             rawServices = parse_if_string JSON_parse (map_of clientWithSettings ''services'');
             servicesArray = array_or_empty rawServices;
             withSettings =
               (case find is_mws_settings servicesArray of
                  None \<Rightarrow> clientWithSettings
                | Some mwsSettings \<Rightarrow>
                    set_prop ''mws_profit_percentage'' (js_prop mwsSettings ''mws_profit_percentage'')
                      (set_prop ''mws_fixed_fee'' (js_prop mwsSettings ''mws_fixed_fee'')
                         clientWithSettings))
         in JObj (set_prop ''services'' (Some (JArr (filter not_mws_settings servicesArray)))
                    withSettings)))"

subsection \<open>Reading clients\<close>

text \<open>
  The read operations are functions of the outcomes of the awaited backend calls:
  \<open>select_clients\<close> is the outcome of \<open>from('clients').select('*')\<close>,
  \<open>select_clients_by_user\<close> that of the same query restricted to a user id, and
  \<open>select_leads\<close> and \<open>select_ad_spends\<close> those of the queries for the leads (with notes
  and appointments, newest first) and the ad spends of the client whose id is passed. Each
  call either resolves to an answer or rejects.
\<close>

record backend =
  select_clients :: "obj list response awaited"
  select_clients_by_user :: "string \<Rightarrow> obj list response awaited"
  select_leads :: "json option \<Rightarrow> obj list response awaited"
  select_ad_spends :: "json option \<Rightarrow> obj list response awaited"

text \<open>\<open>rows || []\<close> as a JSON array.\<close>

definition rows_or_empty :: "obj list option \<Rightarrow> json" where
  "rows_or_empty rows = (case rows of None \<Rightarrow> JArr [] | Some rs \<Rightarrow> JArr (map JObj rs))"

text \<open>The object literal \<open>{ ...unpackedClient, leads: l, adSpends: a }\<close>.\<close>

definition with_leads_and_spends :: "json \<Rightarrow> json \<Rightarrow> json \<Rightarrow> json" where
  "with_leads_and_spends unpackedClient l a =
     JObj (set_prop ''adSpends'' (Some a) (set_prop ''leads'' (Some l) (spread unpackedClient)))"

text \<open>
  What both \<open>getClients\<close> and \<open>getClientByUserId\<close> do with one row of the clients table:
  the two queries for the row's \<open>id\<close>, of which only the \<open>data\<close> is read, then
  \<open>unpackMwsSettings\<close> on the row and the object literal. A query that rejects ends the
  computation with its error, before the row is unpacked. \<open>getClients\<close> awaits the two
  queries one after the other; \<open>getClientByUserId\<close> awaits both through \<open>Promise.all\<close>,
  where the leads query comes first in the array.
\<close>

definition client_with_data :: "(string \<Rightarrow> json option) \<Rightarrow> backend \<Rightarrow> obj \<Rightarrow> js_error + json" where
  "client_with_data JSON_parse b client =
     (case select_leads b (map_of client ''id'') of
        Rejected e \<Rightarrow> Inl e
      | Resolved leads_answer \<Rightarrow>
          (case select_ad_spends b (map_of client ''id'') of
             Rejected e \<Rightarrow> Inl e
           | Resolved spends_answer \<Rightarrow>
               (let unpackedClient = unpackMwsSettings JSON_parse (JObj client)
                in Inr (with_leads_and_spends unpackedClient
                          (rows_or_empty (data leads_answer))
                          (rows_or_empty (data spends_answer))))))"

text \<open>
  \<open>getClients\<close>. A null \<open>clientsData\<close> without an error makes \<open>clientsData.map\<close> throw a
  TypeError.
\<close>

definition getClients :: "(string \<Rightarrow> json option) \<Rightarrow> backend \<Rightarrow> js_error + json list" where
  "getClients JSON_parse b =
     (case select_clients b of
        Rejected e \<Rightarrow> Inl e
      | Resolved answer \<Rightarrow>
          (case error answer of
             Some msg \<Rightarrow> Inl (Error msg)
           | None \<Rightarrow>
               (case data answer of
                  None \<Rightarrow> Inl TypeError
                | Some clientsData \<Rightarrow>
                    Promise_all (map (client_with_data JSON_parse b) clientsData))))"

text \<open>
  \<open>getClientByUserId\<close>; the result \<open>JNull\<close> is the source's \<open>null\<close>. The two console
  messages are not modelled.
\<close>

definition getClientByUserId :: "(string \<Rightarrow> json option) \<Rightarrow> backend \<Rightarrow> string \<Rightarrow> js_error + json" where
  "getClientByUserId JSON_parse b userId =
     (case select_clients_by_user b userId of
        Rejected e \<Rightarrow> Inl e
      | Resolved answer \<Rightarrow>
          (case error answer of
             Some msg \<Rightarrow> Inr JNull
           | None \<Rightarrow>
               (case data answer of
                  None \<Rightarrow> Inr JNull
                | Some [] \<Rightarrow> Inr JNull
                | Some (client # others) \<Rightarrow> client_with_data JSON_parse b client)))"

subsection \<open>updateClient\<close>

text \<open>
  \<open>updateClient\<close> reads and writes the clients table, so the table is part of the model: a
  list of row objects. \<open>.eq('id', clientId)\<close> selects the rows whose \<open>id\<close> is the given
  text; \<open>.single()\<close> answers with the row when exactly one row is selected and with an error
  otherwise, and a write that fails this way leaves the table as it was.
\<close>

definition has_id :: "string \<Rightarrow> obj \<Rightarrow> bool" where
  "has_id i row = (map_of row ''id'' = Some (JStr i))"

definition single :: "obj list \<Rightarrow> obj response" where
  "single rows =
     (case rows of
        [row] \<Rightarrow> Response (Some row) None
      | _ \<Rightarrow> Response None (Some ''JSON object requested, multiple (or no) rows returned''))"

definition update_rows :: "string \<Rightarrow> obj \<Rightarrow> obj list \<Rightarrow> obj list" where
  "update_rows i changes table =
     map (\<lambda>row. if has_id i row then foldl (\<lambda>r (k, v). AList.update k v r) row changes else row)
       table"

definition update_single :: "string \<Rightarrow> obj \<Rightarrow> obj list \<Rightarrow> obj response \<times> obj list" where
  "update_single i changes table =
     (case filter (has_id i) (update_rows i changes table) of
        [row] \<Rightarrow> (Response (Some row) None, update_rows i changes table)
      | _ \<Rightarrow> (Response None (Some ''JSON object requested, multiple (or no) rows returned''),
              table))"

record clientUpdates =
  upd_name :: "string option"
  upd_services :: "json list option"
  upd_mws_fixed_fee :: "rat option"
  upd_mws_profit_percentage :: "rat option"
  upd_quote_webhook_url :: "string option"

text \<open>
  The test \<open>x.id && !x.id.startsWith('new_')\<close>: an id that is truthy but not a string has no
  \<open>startsWith\<close> method, and the call throws.
\<close>

definition keeps_id :: "json option \<Rightarrow> js_error + bool" where
  "keeps_id i =
     (if truthy_val i
      then (case i of Some (JStr t) \<Rightarrow> Inr (\<not> startsWith t ''new_'') | _ \<Rightarrow> Inl TypeError)
      else Inr False)"

fun map_indexed :: "(nat \<Rightarrow> 'a \<Rightarrow> js_error + 'b) \<Rightarrow> nat \<Rightarrow> 'a list \<Rightarrow> js_error + 'b list" where
  "map_indexed f i [] = Inr []"
| "map_indexed f i (x # xs) =
     (case f i x of
        Inl e \<Rightarrow> Inl e
      | Inr y \<Rightarrow> (case map_indexed f (Suc i) xs of Inl e \<Rightarrow> Inl e | Inr ys \<Rightarrow> Inr (y # ys)))"

text \<open>
  The generated identifiers are \<open>service_${Date.now()}_${Math.random()}\<close> and the same with
  \<open>field_\<close>. The text after the prefix is a parameter \<open>fresh\<close>, asked with the position of
  the entry (service index, then field index).
\<close>

definition field_with_id :: "(nat list \<Rightarrow> string) \<Rightarrow> nat \<Rightarrow> nat \<Rightarrow> json \<Rightarrow> js_error + json" where
  "field_with_id fresh i j f =
     (if f = JNull then Inl TypeError
      else
        (case keeps_id (js_prop f ''id'') of
           Inl e \<Rightarrow> Inl e
         | Inr keep \<Rightarrow>
             Inr (JObj (set_prop ''id''
                    (if keep then js_prop f ''id'' else Some (JStr (''field_'' @ fresh [i, j])))
                    (spread f)))))"

definition service_with_ids :: "(nat list \<Rightarrow> string) \<Rightarrow> nat \<Rightarrow> json \<Rightarrow> js_error + json" where
  "service_with_ids fresh i s =
     (if s = JNull then Inl TypeError
      else
        (case keeps_id (js_prop s ''id'') of
           Inl e \<Rightarrow> Inl e
         | Inr keep \<Rightarrow>
             (let new_id =
                    (if keep then js_prop s ''id''
                     else if js_prop s ''id'' = Some (JStr ''mws_settings'')
                     then Some (JStr ''mws_settings'')
                     else Some (JStr (''service_'' @ fresh [i])))
              in if truthy_val (js_prop s ''fields'')
                 then
                   (case js_prop s ''fields'' of
                      Some (JArr fs) \<Rightarrow>
                        (case map_indexed (field_with_id fresh i) 0 fs of
                           Inl e \<Rightarrow> Inl e
                         | Inr fs' \<Rightarrow>
                             Inr (JObj (set_prop ''fields'' (Some (JArr fs'))
                                    (set_prop ''id'' new_id (spread s)))))
                    | _ \<Rightarrow> Inl TypeError)
                 else Inr (JObj (set_prop ''fields'' None (set_prop ''id'' new_id (spread s)))))))"

text \<open>\<open>o.k = v\<close> on a value that is an object.\<close>

fun assign :: "string \<Rightarrow> json \<Rightarrow> json \<Rightarrow> json" where
  "assign k v (JObj kvs) = JObj (AList.update k v kvs)"
| "assign k v other = other"

definition assign_if_defined :: "string \<Rightarrow> rat option \<Rightarrow> json \<Rightarrow> json" where
  "assign_if_defined k v target = (case v of None \<Rightarrow> target | Some x \<Rightarrow> assign k (JNum x) target)"

text \<open>
  The services array that \<open>updateClient\<close> sends, before identifiers are filled in: the user
  services (the new ones if the update has some, else the stored ones) followed by the
  settings entry. The argument is the \<open>services\<close> column as fetched.
\<close>

definition merged_services :: "(string \<Rightarrow> json option) \<Rightarrow> clientUpdates \<Rightarrow> json option \<Rightarrow> json list" where
  "merged_services JSON_parse updates fetched =
     (let currentServices =
            parse_if_string JSON_parse (if truthy_val fetched then fetched else Some (JArr []));
          storedUserServices =
            (case currentServices of Some (JArr xs) \<Rightarrow> filter not_mws_settings xs | _ \<Rightarrow> []);
          found =
            (case currentServices of Some (JArr xs) \<Rightarrow> find is_mws_settings xs | _ \<Rightarrow> None);
          mwsSettings =
            (case found of
               None \<Rightarrow> JObj [(''id'', JStr ''mws_settings''), (''name'', JStr ''_mws_settings'')]
             | Some m \<Rightarrow> m);
          userServices = (case upd_services updates of Some xs \<Rightarrow> xs | None \<Rightarrow> storedUserServices);
          mwsSettings' =
            assign_if_defined ''mws_profit_percentage'' (upd_mws_profit_percentage updates)
              (assign_if_defined ''mws_fixed_fee'' (upd_mws_fixed_fee updates) mwsSettings)
      in userServices @ [mwsSettings'])"

definition other_updates :: "clientUpdates \<Rightarrow> obj" where
  "other_updates updates =
     (case upd_name updates of None \<Rightarrow> [] | Some n \<Rightarrow> [(''name'', JStr n)]) @
     (case upd_quote_webhook_url updates of None \<Rightarrow> [] | Some u \<Rightarrow> [(''quote_webhook_url'', JStr u)])"

text \<open>
  \<open>updateClient\<close>, on a table, returning the client and the table after the update, or the
  error thrown. The stored services are fetched only when the update has a commission
  parameter or a services list; reading \<open>.services\<close> of a null answer would throw a
  TypeError. Only the keys present in the update are written. The result is the unpacked
  row that the update answers with, with empty \<open>leads\<close> and \<open>adSpends\<close>.
\<close>

definition updateClient ::
  "(string \<Rightarrow> json option) \<Rightarrow> (nat list \<Rightarrow> string) \<Rightarrow> obj list \<Rightarrow> string \<Rightarrow> clientUpdates
     \<Rightarrow> js_error + (json \<times> obj list)" where
  "updateClient JSON_parse fresh table clientId updates =
     (let mwsSettingsProvided =
            (upd_mws_fixed_fee updates \<noteq> None \<or> upd_mws_profit_percentage updates \<noteq> None);
          fetched =
            (if mwsSettingsProvided \<or> upd_services updates \<noteq> None
             then
               (case single (filter (has_id clientId) table) of
                  Response d (Some msg) \<Rightarrow> Inl (Error msg)
                | Response None None \<Rightarrow> Inl TypeError
                | Response (Some currentClientData) None \<Rightarrow>
                    Inr (Some (merged_services JSON_parse updates
                                 (map_of currentClientData ''services''))))
             else Inr None)
      in case fetched of
           Inl e \<Rightarrow> Inl e
         | Inr services \<Rightarrow>
             (case (case services of
                      None \<Rightarrow> Inr []
                    | Some xs \<Rightarrow>
                        (case map_indexed (service_with_ids fresh) 0 xs of
                           Inl e \<Rightarrow> Inl e
                         | Inr ys \<Rightarrow> Inr [(''services'', JArr ys)])) of
                Inl e \<Rightarrow> Inl e
              | Inr servicesUpdate \<Rightarrow>
                  (case update_single clientId (other_updates updates @ servicesUpdate) table of
                     (Response d (Some msg), table') \<Rightarrow> Inl (Error msg)
                   | (Response None None, table') \<Rightarrow>
                       Inr (with_leads_and_spends (unpackMwsSettings JSON_parse JNull)
                              (JArr []) (JArr []), table')
                   | (Response (Some row) None, table') \<Rightarrow>
                       Inr (with_leads_and_spends (unpackMwsSettings JSON_parse (JObj row))
                              (JArr []) (JArr []), table'))))"

text \<open>
  Whether a client object shows a service with id \<open>mws_settings\<close> in its services list.
\<close>

definition exposes_mws_settings :: "json \<Rightarrow> bool" where
  "exposes_mws_settings c =
     list_ex (\<lambda>s. js_prop s ''id'' = Some (JStr ''mws_settings''))
       (array_or_empty (js_prop c ''services''))"

text \<open>
  The services values on which \<open>unpackMwsSettings\<close> falls back to the empty array: a string
  that does not parse, a string that parses to something other than an array, and every
  value that is neither a string nor an array, \<open>undefined\<close> included.
\<close>

definition malformed_services :: "(string \<Rightarrow> json option) \<Rightarrow> json option \<Rightarrow> bool" where
  "malformed_services JSON_parse raw =
     (case raw of
        Some (JStr s) \<Rightarrow> (case JSON_parse s of Some (JArr xs) \<Rightarrow> False | _ \<Rightarrow> True)
      | Some (JArr xs) \<Rightarrow> False
      | _ \<Rightarrow> True)"

text \<open>A parser that knows a few texts, for the examples.\<close>

definition example_parse :: "string \<Rightarrow> json option" where
  "example_parse t =
     (if t = ''[]'' then Some (JArr [])
      else if t = ''null'' then Some JNull
      else if t = ''{}'' then Some (JObj [])
      else None)"

text \<open>
  A stored client row whose services column holds one user service and the settings entry,
  a row whose services column is text that is not JSON, and a backend that answers with
  the first of them.
\<close>

definition example_row :: obj where
  "example_row =
     [(''id'', JStr ''c1''), (''user_id'', JStr ''u1''), (''name'', JStr ''Acme''),
      (''services'',
         JArr [JObj [(''id'', JStr ''service_1''), (''name'', JStr ''Roof'')],
               JObj [(''id'', JStr ''mws_settings''), (''name'', JStr ''_mws_settings''),
                     (''mws_fixed_fee'', JNum 100), (''mws_profit_percentage'', JNum 20)]])]"

definition broken_row :: obj where
  "broken_row = [(''id'', JStr ''c2''), (''user_id'', JStr ''u2''), (''services'', JStr ''oops'')]"

definition example_backend :: backend where
  "example_backend =
     \<lparr> select_clients = Resolved (Response (Some [example_row, broken_row]) None),
       select_clients_by_user =
         (\<lambda>u. if u = ''u1'' then Resolved (Response (Some [example_row, broken_row]) None)
              else if u = ''u2'' then Resolved (Response None (Some ''permission denied''))
              else Resolved (Response (Some []) None)),
       select_leads = (\<lambda>i. Resolved (Response None None)),
       select_ad_spends = (\<lambda>i. Resolved (Response (Some []) None)) \<rparr>"







text \<open>
  An update that gives neither commission parameter nor a services list; such an update
  skips the fetch of the stored services.
\<close>

definition only_other_fields :: "clientUpdates \<Rightarrow> bool" where
  "only_other_fields u =
     (upd_mws_fixed_fee u = None \<and> upd_mws_profit_percentage u = None \<and> upd_services u = None)"

text \<open>
  The value the stored settings entry gives for a key, as \<open>updateClient\<close> finds it in the
  fetched services column.
\<close>

definition stored_setting :: "(string \<Rightarrow> json option) \<Rightarrow> json option \<Rightarrow> string \<Rightarrow> json option" where
  "stored_setting P fetched k =
     (case find is_mws_settings
             (array_or_empty (parse_if_string P (if truthy_val fetched then fetched else Some (JArr [])))) of
        None \<Rightarrow> None
      | Some x \<Rightarrow> js_prop x k)"

definition example_fresh :: "nat list \<Rightarrow> string" where
  "example_fresh position = ''1700000000000_0.5''"

definition fee_update :: clientUpdates where
  "fee_update =
     \<lparr> upd_name = None, upd_services = None, upd_mws_fixed_fee = Some 150,
       upd_mws_profit_percentage = Some 25, upd_quote_webhook_url = None \<rparr>"

definition services_update :: clientUpdates where
  "services_update =
     \<lparr> upd_name = Some ''Acme 2'',
       upd_services = Some [JObj [(''id'', JStr ''new_1''), (''name'', JStr ''Windows'')]],
       upd_mws_fixed_fee = None, upd_mws_profit_percentage = None,
       upd_quote_webhook_url = None \<rparr>"

subsection \<open>addLead\<close>

record AddLeadOptions =
  clientId :: string
  leadData :: "(string \<times> string) list"
  service :: "string option"
  lead_status :: "string option"
  new_value :: "rat option"
  createdAt :: "string option"

text \<open>
  The backend as \<open>addLead\<close> meets it: the insert of the lead row (with \<open>.select().single()\<close>),
  and, inside the \<open>try\<close> block, the query for the client's user id and name, the query for
  the admin profiles, and the insert of the notification rows.
\<close>

record lead_backend =
  insert_lead :: "obj \<Rightarrow> obj response"
  select_client_user :: "string \<Rightarrow> obj response awaited"
  select_admins :: "obj list response awaited"
  insert_notifications :: "obj list \<Rightarrow> obj list response awaited"

definition opt_entry :: "string \<Rightarrow> json option \<Rightarrow> obj" where
  "opt_entry k v = (case v of None \<Rightarrow> [] | Some x \<Rightarrow> [(k, x)])"

text \<open>
  The row \<open>leadToInsert\<close>. \<open>new Date(createdAt).toISOString()\<close> throws a RangeError on an
  Invalid Date; \<open>toISOString\<close> on a valid date is a parameter. Properties whose value is
  \<open>undefined\<close> are not sent.
\<close>

definition leadToInsert ::
  "(string \<Rightarrow> date) \<Rightarrow> (int \<Rightarrow> string) \<Rightarrow> AddLeadOptions \<Rightarrow> js_error + obj" where
  "leadToInsert newDate toISOString opts =
     (let base =
            [(''client_id'', JStr (clientId opts)),
             (''data'', JObj (map (\<lambda>(k, v). (k, JStr v)) (leadData opts)))] @
            opt_entry ''service'' (map_option JStr (service opts)) @
            [(''status'',
              JStr (case lead_status opts of
                      None \<Rightarrow> ''Nuovo''
                    | Some s \<Rightarrow> if s = [] then ''Nuovo'' else s))] @
            opt_entry ''value'' (map_option JNum (new_value opts))
      in case createdAt opts of
           None \<Rightarrow> Inr base
         | Some t \<Rightarrow>
             if t = [] then Inr base
             else (case newDate t of
                     InvalidDate \<Rightarrow> Inl RangeError
                   | Date ms \<Rightarrow> Inr (base @ [(''created_at'', JStr (toISOString ms))])))"

text \<open>\<open>leadData.nome || 'N/D'\<close>.\<close>

definition lead_name :: "(string \<times> string) list \<Rightarrow> string" where
  "lead_name d = (case map_of d ''nome'' of None \<Rightarrow> ''N/D'' | Some n \<Rightarrow> if n = [] then ''N/D'' else n)"

text \<open>
  The rows \<open>notificationsToInsert\<close>: one for the client's user, then one per admin. \<open>String\<close>
  is the conversion a template literal applies to \<open>clientData.name\<close>, a parameter. The
  apostrophe is \<open>CHR 0x27\<close>, and the capital E with grave accent is its two UTF-8 bytes.
\<close>

definition notificationsToInsert ::
  "(json option \<Rightarrow> string) \<Rightarrow> AddLeadOptions \<Rightarrow> obj \<Rightarrow> obj \<Rightarrow> obj list \<Rightarrow> obj list" where
  "notificationsToInsert String opts newLead clientData adminUsers =
     (opt_entry ''user_id'' (map_of clientData ''user_id'') @
      [(''title'', JStr ''Nuovo Lead Ricevuto!''),
       (''message'',
        JStr (''Hai ricevuto un nuovo lead: '' @ [CHR 0x27] @ lead_name (leadData opts) @
              [CHR 0x27] @ ''. Clicca per vedere i dettagli.''))] @
      opt_entry ''lead_id'' (map_of newLead ''id'') @
      [(''client_id'', JStr (clientId opts))]) #
     map (\<lambda>admin.
            opt_entry ''user_id'' (map_of admin ''id'') @
            [(''title'', JStr (''Nuovo Lead per '' @ String (map_of clientData ''name''))),
             (''message'',
              JStr ([CHR 0xC3, CHR 0x88] @ '' stato registrato un nuovo lead '' @ [CHR 0x27] @
                    lead_name (leadData opts) @ [CHR 0x27] @ '' per il cliente '' @
                    [CHR 0x27] @ String (map_of clientData ''name'') @ [CHR 0x27] @ ''.''))] @
            opt_entry ''lead_id'' (map_of newLead ''id'') @
            [(''client_id'', JStr (clientId opts))])
       adminUsers"

text \<open>
  The body of the \<open>try\<close> block: \<open>Inl\<close> is an exception thrown inside it. Reading
  \<open>newLead.id\<close> throws when the insert answered with null data. The answer of the
  notification insert is not looked at.
\<close>

definition create_notifications ::
  "(json option \<Rightarrow> string) \<Rightarrow> lead_backend \<Rightarrow> AddLeadOptions \<Rightarrow> obj option \<Rightarrow> js_error + unit" where
  "create_notifications String b opts newLead =
     (case select_client_user b (clientId opts) of
        Rejected e \<Rightarrow> Inl e
      | Resolved r1 \<Rightarrow>
          (case select_admins b of
             Rejected e \<Rightarrow> Inl e
           | Resolved r2 \<Rightarrow>
               (case (data r1, data r2) of
                  (Some clientData, Some adminUsers) \<Rightarrow>
                    if length adminUsers > 0
                    then
                      (case newLead of
                         None \<Rightarrow> Inl TypeError
                       | Some lead \<Rightarrow>
                           (case insert_notifications b
                                   (notificationsToInsert String opts lead clientData adminUsers) of
                              Rejected e \<Rightarrow> Inl e
                            | Resolved r3 \<Rightarrow> Inr ()))
                    else Inr ()
                | _ \<Rightarrow> Inr ())))"

text \<open>
  \<open>addLead\<close>: the first component is what the caller gets (\<open>Inl\<close> for a thrown error, \<open>Inr\<close>
  for the returned lead, \<open>JNull\<close> when the insert answered with null data), the second the
  errors that the \<open>catch\<close> block writes to the console.
\<close>

definition addLead ::
  "(string \<Rightarrow> date) \<Rightarrow> (int \<Rightarrow> string) \<Rightarrow> (json option \<Rightarrow> string) \<Rightarrow> lead_backend
     \<Rightarrow> AddLeadOptions \<Rightarrow> (js_error + json) \<times> js_error list" where
  "addLead newDate toISOString String b opts =
     (case leadToInsert newDate toISOString opts of
        Inl e \<Rightarrow> (Inl e, [])
      | Inr row \<Rightarrow>
          (case insert_lead b row of
             Response d (Some msg) \<Rightarrow> (Inl (Error msg), [])
           | Response newLead None \<Rightarrow>
               (Inr (case newLead of None \<Rightarrow> JNull | Some lead \<Rightarrow> JObj lead),
                case create_notifications String b opts newLead of
                  Inl notificationError \<Rightarrow> [notificationError]
                | Inr u \<Rightarrow> [])))"

text \<open>Example options, and three backends that differ only in the secondary step.\<close>

definition example_options :: AddLeadOptions where
  "example_options =
     \<lparr> clientId = ''c1'', leadData = [(''nome'', ''Mario'')], service = None,
       lead_status = None, new_value = None, createdAt = None \<rparr>"

definition example_lead :: obj where
  "example_lead = [(''id'', JStr ''l1''), (''client_id'', JStr ''c1''), (''status'', JStr ''Nuovo'')]"

definition example_String :: "json option \<Rightarrow> string" where
  "example_String v = (case v of Some (JStr s) \<Rightarrow> s | _ \<Rightarrow> ''undefined'')"

definition example_toISOString :: "int \<Rightarrow> string" where
  "example_toISOString ms = ''1970-01-01T00:00:00.000Z''"

definition failing_insert_backend :: lead_backend where
  "failing_insert_backend =
     \<lparr> insert_lead = (\<lambda>row. Response (Some example_lead) None),
       select_client_user =
         (\<lambda>i. Resolved (Response (Some [(''user_id'', JStr ''u1''), (''name'', JStr ''Acme'')]) None)),
       select_admins = Resolved (Response (Some [[(''id'', JStr ''a1'')]]) None),
       insert_notifications = (\<lambda>rows. Rejected (Error ''network down'')) \<rparr>"

definition refusing_insert_backend :: lead_backend where
  "refusing_insert_backend =
     failing_insert_backend
       \<lparr> insert_notifications := (\<lambda>rows. Resolved (Response None (Some ''row-level security''))) \<rparr>"

subsection \<open>sendQuoteByWebhook\<close>

datatype fetch_outcome = Responded nat string | FetchFailed js_error

datatype call = WebhookPost json json | StatusUpdate string string

text \<open>
  What \<open>sendQuoteByWebhook\<close> meets besides the quotes table: the answer to the lead query of
  \<open>getLeadById\<close>, the answer to the query for the client's webhook URL, \<open>fetch\<close> (a response
  with status and body text, or a rejection), and the error, if any, reported by the
  status update.
\<close>

record quote_env =
  lead_by_id :: "json option \<Rightarrow> obj response"
  client_webhook :: "json option \<Rightarrow> obj response"
  fetch :: "json \<Rightarrow> json \<Rightarrow> fetch_outcome"
  status_update_error :: "string option"

definition getLeadById :: "quote_env \<Rightarrow> json option \<Rightarrow> obj option" where
  "getLeadById env leadId =
     (case error (lead_by_id env leadId) of
        Some msg \<Rightarrow> None
      | None \<Rightarrow> data (lead_by_id env leadId))"

text \<open>
  \<open>updateQuoteStatus\<close>: the update sets the status of the rows with the given id; when the
  backend reports an error the table is unchanged and the function throws.
\<close>

definition updateQuoteStatus ::
  "quote_env \<Rightarrow> obj list \<Rightarrow> string \<Rightarrow> string \<Rightarrow> (js_error + unit) \<times> obj list" where
  "updateQuoteStatus env quotes quoteId st =
     (case status_update_error env of
        Some msg \<Rightarrow> (Inl (Error (''Failed to update quote status: '' @ msg)), quotes)
      | None \<Rightarrow> (Inr (), update_rows quoteId [(''status'', JStr st)] quotes))"

text \<open>The items of the payload: an object that is not an array is replaced by its values.\<close>

definition itemsForPayload :: "json option \<Rightarrow> json option" where
  "itemsForPayload items = (case items of Some (JObj kvs) \<Rightarrow> Some (JArr (map snd kvs)) | _ \<Rightarrow> items)"

definition webhook_payload :: "obj \<Rightarrow> obj \<Rightarrow> json" where
  "webhook_payload rawQuote lead =
     JObj ([(''event'', JStr ''quote_sent_by_email''),
            (''quote'', JObj (set_prop ''items'' (itemsForPayload (map_of rawQuote ''items'')) rawQuote))] @
           opt_entry ''lead_data'' (map_of lead ''data''))"

definition response_ok :: "nat \<Rightarrow> bool" where
  "response_ok st = (200 \<le> st \<and> st \<le> 299)"

definition webhook_error_message :: "nat \<Rightarrow> string \<Rightarrow> string" where
  "webhook_error_message st errorText =
     ''Il server webhook ha risposto con un errore: '' @ show_nat st @ '' - '' @ errorText"

text \<open>
  The test \<open>clientError || !client || !client.quote_webhook_url\<close>: \<open>None\<close> when it holds,
  otherwise the configured URL.
\<close>

definition webhook_url :: "obj response \<Rightarrow> json option" where
  "webhook_url c =
     (case (error c, data c) of
        (None, Some client) \<Rightarrow>
          (case map_of client ''quote_webhook_url'' of
             Some url \<Rightarrow> if truthy url then Some url else None
           | None \<Rightarrow> None)
      | _ \<Rightarrow> None)"

text \<open>
  \<open>sendQuoteByWebhook\<close>: the result, the calls issued to the webhook and to the quotes
  table (in order), and the quotes table afterwards.
\<close>

definition sendQuoteByWebhook ::
  "quote_env \<Rightarrow> obj list \<Rightarrow> string \<Rightarrow> (js_error + unit) \<times> call list \<times> obj list" where
  "sendQuoteByWebhook env quotes quoteId =
     (case single (filter (has_id quoteId) quotes) of
        Response d (Some msg) \<Rightarrow> (Inl (Error msg), [], quotes)
      | Response None None \<Rightarrow> (Inl (Error ''Impossibile trovare il preventivo.''), [], quotes)
      | Response (Some rawQuote) None \<Rightarrow>
          (case getLeadById env (map_of rawQuote ''lead_id'') of
             None \<Rightarrow>
               (Inl (Error ''Impossibile trovare il lead associato al preventivo.''), [], quotes)
           | Some lead \<Rightarrow>
               (case webhook_url (client_webhook env (map_of rawQuote ''client_id'')) of
                  None \<Rightarrow>
                    (Inl (Error ''URL webhook non configurato per questo cliente.''), [], quotes)
                | Some url \<Rightarrow>
                    (let payload = webhook_payload rawQuote lead;
                         post = WebhookPost url payload
                     in case fetch env url payload of
                          FetchFailed e \<Rightarrow> (Inl e, [post], quotes)
                        | Responded st errorText \<Rightarrow>
                            if \<not> response_ok st
                            then (Inl (Error (webhook_error_message st errorText)), [post], quotes)
                            else if map_of rawQuote ''status'' \<noteq> Some (JStr ''accepted'')
                            then
                              (case updateQuoteStatus env quotes quoteId ''sent'' of
                                 (r, quotes') \<Rightarrow> (r, [post, StatusUpdate quoteId ''sent''], quotes'))
                            else (Inr (), [post], quotes)))))"

text \<open>A sent quote whose client has a webhook, and a webhook that answers 500.\<close>

definition example_quote :: obj where
  "example_quote =
     [(''id'', JStr ''q1''), (''lead_id'', JStr ''l1''), (''client_id'', JStr ''c1''),
      (''status'', JStr ''draft''),
      (''items'', JObj [(''0'', JObj [(''description'', JStr ''Roof''), (''price'', JNum 500)])])]"

definition example_env :: "nat \<Rightarrow> quote_env" where
  "example_env st =
     \<lparr> lead_by_id = (\<lambda>i. Response (Some [(''id'', JStr ''l1''), (''data'', JObj [(''nome'', JStr ''Mario'')])]) None),
       client_webhook = (\<lambda>i. Response (Some [(''quote_webhook_url'', JStr ''https://hook.example/q'')]) None),
       fetch = (\<lambda>url body. Responded st (if st = 200 then ''ok'' else ''boom'')),
       status_update_error = None \<rparr>"

subsection \<open>Sent notifications\<close>

text \<open>
  A timestamp is kept as the UTC calendar fields of the instant, to the millisecond: the
  source reads them with \<open>getUTCFullYear\<close> and the like, and sets seconds and milliseconds
  with \<open>setUTCSeconds\<close>. The backend compares two instants; on calendar fields that is the
  lexicographic order. \<open>utc_month\<close> is the calendar month, 1 to 12.
\<close>

record utc =
  utc_year :: nat
  utc_month :: nat
  utc_day :: nat
  utc_hours :: nat
  utc_minutes :: nat
  utc_seconds :: nat
  utc_millis :: nat

definition instant :: "utc \<Rightarrow> nat \<times> nat \<times> nat \<times> nat \<times> nat \<times> nat \<times> nat" where
  "instant t =
     (utc_year t, utc_month t, utc_day t, utc_hours t, utc_minutes t, utc_seconds t, utc_millis t)"

text \<open>
  The rows of the notifications table; \<open>title\<close> and \<open>lead_id\<close> may be null. \<open>sent_at\<close> is
  the column \<open>created_at\<close> and \<open>is_read\<close> the column \<open>read\<close>.
\<close>

record notification =
  user_id :: string
  title :: "string option"
  message :: string
  lead_id :: "string option"
  sent_at :: utc
  is_read :: bool

text \<open>
  The query of \<open>getSentNotifications\<close>: rows without a lead and with a title, newest first
  (rows of the same instant in the reverse of their stored order).
\<close>

definition select_sent :: "notification list \<Rightarrow> notification list" where
  "select_sent table =
     rev (sort_key (\<lambda>n. instant (sent_at n))
            (filter (\<lambda>n. lead_id n = None \<and> title n \<noteq> None) table))"

definition timeKey :: "utc \<Rightarrow> string" where
  "timeKey d =
     show_nat (utc_year d) @ ''-'' @ show_nat (utc_month d - 1) @ ''-'' @ show_nat (utc_day d) @
     ''-'' @ show_nat (utc_hours d) @ ''-'' @ show_nat (utc_minutes d)"

definition groupKey :: "notification \<Rightarrow> string" where
  "groupKey n =
     (case title n of None \<Rightarrow> ''null'' | Some t \<Rightarrow> t) @ ''|'' @ message n @ ''|'' @
     timeKey (sent_at n)"

text \<open>
  The loop over the rows: \<open>grouped\<close> is the \<open>Map\<close>, as the list of its entries in insertion
  order.
\<close>

fun group_rows :: "(string \<times> notification) list \<Rightarrow> notification list \<Rightarrow> (string \<times> notification) list" where
  "group_rows grouped [] = grouped"
| "group_rows grouped (n # ns) =
     (if groupKey n \<in> fst ` set grouped then group_rows grouped ns
      else group_rows (grouped @ [(groupKey n, n)]) ns)"

definition getSentNotifications :: "notification list response \<Rightarrow> js_error + notification list" where
  "getSentNotifications answer =
     (case error answer of
        Some msg \<Rightarrow> Inl (Error msg)
      | None \<Rightarrow>
          Inr (map snd (group_rows [] (case data answer of None \<Rightarrow> [] | Some rows \<Rightarrow> rows))))"

text \<open>\<open>setUTCSeconds(0, 0)\<close> and \<open>setUTCSeconds(59, 999)\<close> on a copy of the date.\<close>

definition startTime :: "utc \<Rightarrow> utc" where
  "startTime d = d \<lparr> utc_seconds := 0, utc_millis := 0 \<rparr>"

definition endTime :: "utc \<Rightarrow> utc" where
  "endTime d = d \<lparr> utc_seconds := 59, utc_millis := 999 \<rparr>"

text \<open>
  The filter shared by the select and the delete of \<open>updateSentNotification\<close> and by the
  delete of \<open>deleteSentNotification\<close>: no lead, the same title and message, and a creation
  time between the two bounds. A row whose title is null matches no title.
\<close>

definition in_batch :: "notification \<Rightarrow> notification \<Rightarrow> bool" where
  "in_batch original n =
     (lead_id n = None \<and> title n \<noteq> None \<and> title n = title original \<and>
      message n = message original \<and>
      instant (startTime (sent_at original)) \<le> instant (sent_at n) \<and>
      instant (sent_at n) \<le> instant (endTime (sent_at original)))"

text \<open>
  The errors the three backend calls of \<open>updateSentNotification\<close> may report, the
  creation time the backend gives to the rows inserted, and \<open>String.prototype.trim\<close>,
  which removes the white space and the line terminators of Unicode at both ends of a
  text; it is a parameter because the characters of a \<open>string\<close> here are bytes.
\<close>

record batch_env =
  fetch_error :: "string option"
  delete_error :: "string option"
  insert_error :: "string option"
  now :: utc
  trim :: "string \<Rightarrow> string"

definition updateSentNotification ::
  "batch_env \<Rightarrow> notification list \<Rightarrow> notification \<Rightarrow> string \<Rightarrow> string
     \<Rightarrow> (js_error + unit) \<times> notification list" where
  "updateSentNotification env table originalNotification newTitle newMessage =
     (case fetch_error env of
        Some msg \<Rightarrow> (Inl (Error (''Could not retrieve original notifications: '' @ msg)), table)
      | None \<Rightarrow>
          (let originalBatch = filter (in_batch originalNotification) table
           in if originalBatch = [] then (Inr (), table)
              else
                (let recipientUserIds = uniq (map user_id originalBatch)
                 in case delete_error env of
                      Some msg \<Rightarrow>
                        (Inl (Error (''Could not delete original notifications: '' @ msg)), table)
                    | None \<Rightarrow>
                        (let remaining = filter (\<lambda>n. \<not> in_batch originalNotification n) table;
                             notificationsToInsert =
                               map (\<lambda>userId.
                                      \<lparr> user_id = userId, title = Some (trim env newTitle),
                                        message = trim env newMessage, lead_id = None,
                                        sent_at = now env, is_read = False \<rparr>)
                                 recipientUserIds
                         in case insert_error env of
                              Some msg \<Rightarrow>
                                (Inl (Error (''Could not resend new notifications: '' @ msg)),
                                 remaining)
                            | None \<Rightarrow> (Inr (), remaining @ notificationsToInsert)))))"

definition deleteSentNotification ::
  "string option \<Rightarrow> notification list \<Rightarrow> notification \<Rightarrow> (js_error + unit) \<times> notification list" where
  "deleteSentNotification delete_err table notificationToDelete =
     (case delete_err of
        Some msg \<Rightarrow> (Inl (Error msg), table)
      | None \<Rightarrow> (Inr (), filter (\<lambda>n. \<not> in_batch notificationToDelete n) table))"

text \<open>
  The batch a notification belongs to, as the specification defines it: the same title,
  the same message and the same clock minute.
\<close>

definition same_minute :: "utc \<Rightarrow> utc \<Rightarrow> bool" where
  "same_minute a b =
     (utc_year a = utc_year b \<and> utc_month a = utc_month b \<and> utc_day a = utc_day b \<and>
      utc_hours a = utc_hours b \<and> utc_minutes a = utc_minutes b)"

definition same_batch :: "notification \<Rightarrow> notification \<Rightarrow> bool" where
  "same_batch a b =
     (title a = title b \<and> message a = message b \<and> same_minute (sent_at a) (sent_at b))"

text \<open>
  Two custom notifications sent in the same minute to different users, with different
  titles and different messages.
\<close>

definition ten_past :: utc where
  "ten_past =
     \<lparr> utc_year = 2024, utc_month = 5, utc_day = 10, utc_hours = 9, utc_minutes = 10,
       utc_seconds = 5, utc_millis = 0 \<rparr>"

definition first_notice :: notification where
  "first_notice =
     \<lparr> user_id = ''u1'', title = Some ''a|b'', message = ''c'', lead_id = None,
       sent_at = ten_past, is_read = False \<rparr>"

definition second_notice :: notification where
  "second_notice =
     \<lparr> user_id = ''u2'', title = Some ''a'', message = ''b|c'', lead_id = None,
       sent_at = ten_past \<lparr> utc_seconds := 40 \<rparr>, is_read = False \<rparr>"

section \<open>Properties of the revenue calculation\<close>

lemma foldl_plus_sum_list:
  "foldl (\<lambda>acc x. acc + f x) a xs = (a::rat) + sum_list (map f xs)"
  by (induction xs arbitrary: a) (simp_all add: add.assoc)

lemma in_range_window:
  "in_range (window s e) d = spec_in_window s e d"
  by (cases d) (auto simp: in_range_def window_def spec_in_window_def)

lemma attribution_text_spec:
  "newDate (attribution_text l) = spec_attribution_date newDate l"
  by (auto simp: attribution_text_def spec_attribution_date_def split: option.splits)

lemma window_bounds [simp]:
  "range_start (window s e) = Some (Date s)" "range_end (window s e) = Some (Date e)"
  by (simp_all add: window_def)

lemma clientRevenue_window:
  "clientRevenue (revenueData newDate c (window s e)) = spec_wonRevenue newDate c s e"
  by (simp add: revenueData_def Let_def filtered_leads_def foldl_plus_sum_list
      in_range_window attribution_text_spec spec_wonRevenue_def conj_commute)

lemma totalAdSpend_window:
  "totalAdSpend (revenueData newDate c (window s e)) = spec_adSpend newDate c s e"
  by (simp add: revenueData_def Let_def filtered_spends_def foldl_plus_sum_list
      in_range_window spec_adSpend_def)

lemma clientProfit_eq:
  "clientProfit (revenueData newDate c r) =
     clientRevenue (revenueData newDate c r) - totalAdSpend (revenueData newDate c r)"
  by (simp add: revenueData_def Let_def)

lemma mwsRevenue_eq:
  "mwsRevenue (revenueData newDate c r) =
     or_zero (mws_fixed_fee c) +
       (if clientProfit (revenueData newDate c r) > 0
        then clientProfit (revenueData newDate c r) * or_zero (mws_profit_percentage c) / 100
        else 0)"
  by (simp add: revenueData_def Let_def)



subsection \<open>Order of the inputs and splitting of the window, in exact arithmetic\<close>

lemma sum_list_filter_mset:
  "sum_list (map f (filter P xs)) = sum_mset (image_mset f (filter_mset P (mset xs)))"
  for f :: "'a \<Rightarrow> rat"
  by (induction xs) simp_all

lemma revenueData_sums:
  "clientRevenue (revenueData newDate c r) =
     sum_list (map (\<lambda>l. or_zero (lead_value l))
       (filter (\<lambda>l. status l = ''Vinto'') (filtered_leads newDate c r)))"
  "totalAdSpend (revenueData newDate c r) = sum_list (map amount (filtered_spends newDate c r))"
  by (simp_all add: revenueData_def Let_def foldl_plus_sum_list)

lemma revenueData_eqI:
  assumes "clientRevenue (revenueData newDate c' r) = clientRevenue (revenueData newDate c r)"
    and "totalAdSpend (revenueData newDate c' r) = totalAdSpend (revenueData newDate c r)"
    and "mws_fixed_fee c' = mws_fixed_fee c"
    and "mws_profit_percentage c' = mws_profit_percentage c"
  shows "revenueData newDate c' r = revenueData newDate c r"
proof -
  have "foldl (\<lambda>sum l. sum + or_zero (lead_value l)) 0
          (filter (\<lambda>l. status l = ''Vinto'') (filtered_leads newDate c' r)) =
        foldl (\<lambda>sum l. sum + or_zero (lead_value l)) 0
          (filter (\<lambda>l. status l = ''Vinto'') (filtered_leads newDate c r))"
    using assms(1) by (simp add: revenueData_def Let_def)
  moreover have "foldl (\<lambda>sum s. sum + amount s) 0 (filtered_spends newDate c' r) =
        foldl (\<lambda>sum s. sum + amount s) 0 (filtered_spends newDate c r)"
    using assms(2) by (simp add: revenueData_def Let_def)
  ultimately show ?thesis
    using assms(3,4) by (simp add: revenueData_def Let_def)
qed

lemma revenueData_permute:
  assumes "mset (leads c') = mset (leads c)"
    and "mset (adSpends c') = mset (adSpends c)"
    and "mws_fixed_fee c' = mws_fixed_fee c"
    and "mws_profit_percentage c' = mws_profit_percentage c"
  shows "revenueData newDate c' r = revenueData newDate c r"
proof (rule revenueData_eqI)
  have "mset (filtered_leads newDate c' r) = mset (filtered_leads newDate c r)"
    using assms(1) by (simp add: filtered_leads_def)
  then show "clientRevenue (revenueData newDate c' r) = clientRevenue (revenueData newDate c r)"
    by (simp add: revenueData_sums sum_list_filter_mset)
  have "mset (filtered_spends newDate c' r) = mset (filtered_spends newDate c r)"
    using assms(2) by (simp add: filtered_spends_def)
  then have "mset (map amount (filtered_spends newDate c' r)) =
             mset (map amount (filtered_spends newDate c r))"
    by (metis mset_map)
  then show "totalAdSpend (revenueData newDate c' r) = totalAdSpend (revenueData newDate c r)"
    by (metis revenueData_sums(2) sum_mset_sum_list)
qed (use assms in simp_all)

lemma sum_list_filter_split:
  fixes f :: "'a \<Rightarrow> rat"
  assumes "\<And>x. P x \<longleftrightarrow> (Q x \<or> R x)" and "\<And>x. \<not> (Q x \<and> R x)"
  shows "sum_list (map f (filter P xs)) =
         sum_list (map f (filter Q xs)) + sum_list (map f (filter R xs))"
  using assms by (induction xs) auto

lemma spec_in_window_split:
  assumes "s \<le> m" and "m < e"
  shows "spec_in_window s e d \<longleftrightarrow> (spec_in_window s m d \<or> spec_in_window (m + 1) e d)"
    and "\<not> (spec_in_window s m d \<and> spec_in_window (m + 1) e d)"
  using assms by (auto simp: spec_in_window_def split: date.splits)

lemma spec_wonRevenue_split:
  assumes "s \<le> m" and "m < e"
  shows "spec_wonRevenue newDate c s e =
         spec_wonRevenue newDate c s m + spec_wonRevenue newDate c (m + 1) e"
  unfolding spec_wonRevenue_def
  by (rule sum_list_filter_split) (use spec_in_window_split [OF assms] in blast)+

lemma spec_adSpend_split:
  assumes "s \<le> m" and "m < e"
  shows "spec_adSpend newDate c s e =
         spec_adSpend newDate c s m + spec_adSpend newDate c (m + 1) e"
  unfolding spec_adSpend_def
  by (rule sum_list_filter_split) (use spec_in_window_split [OF assms] in blast)+

lemma clientProfit_split:
  assumes "s \<le> m" and "m < e"
  shows "clientProfit (revenueData newDate c (window s e)) =
         clientProfit (revenueData newDate c (window s m)) +
         clientProfit (revenueData newDate c (window (m + 1) e))"
  by (simp add: clientProfit_eq clientRevenue_window totalAdSpend_window
      spec_wonRevenue_split [OF assms] spec_adSpend_split [OF assms])

lemma mwsRevenue_split:
  assumes "s \<le> m" and "m < e"
    and "0 \<le> clientProfit (revenueData newDate c (window s m))"
    and "0 \<le> clientProfit (revenueData newDate c (window (m + 1) e))"
  shows "mwsRevenue (revenueData newDate c (window s m)) +
         mwsRevenue (revenueData newDate c (window (m + 1) e)) =
         mwsRevenue (revenueData newDate c (window s e)) + or_zero (mws_fixed_fee c)"
proof -
  define p1 where "p1 = clientProfit (revenueData newDate c (window s m))"
  define p2 where "p2 = clientProfit (revenueData newDate c (window (m + 1) e))"
  define k where "k = or_zero (mws_profit_percentage c)"
  have p: "clientProfit (revenueData newDate c (window s e)) = p1 + p2"
    unfolding p1_def p2_def by (rule clientProfit_split [OF assms(1,2)])
  have nn: "0 \<le> p1" "0 \<le> p2"
    using assms(3,4) by (simp_all add: p1_def p2_def)
  have "(if p1 > 0 then p1 * k / 100 else 0) + (if p2 > 0 then p2 * k / 100 else 0) =
        (if p1 + p2 > 0 then (p1 + p2) * k / 100 else 0)"
    using nn by (auto simp: add_divide_distrib distrib_right)
  then show ?thesis
    unfolding mwsRevenue_eq p p1_def [symmetric] p2_def [symmetric] k_def [symmetric]
    by simp
qed

section \<open>Properties of the arithmetic of doubles\<close>

lemma round_half_even_of_int [simp]: "round_half_even (of_int k) = k"
  by (simp add: round_half_even_def)

lemma exponent2_of_int:
  assumes "0 < m"
  shows "exponent2 (of_int m) = bitlen m - 1"
proof -
  from bitlen_bounds [OF assms] have b: "2 ^ nat (bitlen m - 1) \<le> m"
    by simp
  have "1 \<le> bitlen m"
    using assms bitlen_eq_zero_iff [of m] bitlen_nonneg [of m] by linarith
  then have "pow2 (bitlen m - 1) = of_int (2 ^ nat (bitlen m - 1))"
    by (simp add: pow2_def)
  also have "\<dots> \<le> of_int m"
    using b by (simp only: of_int_le_iff)
  finally have "pow2 (bitlen m - 1) \<le> of_int m" .
  moreover have "bitlen 1 = 1"
    by (simp add: compute_bitlen)
  ultimately show ?thesis
    by (simp add: exponent2_def)
qed

lemma bitlen_le_54:
  assumes "0 < m" and "m \<le> 2 ^ 53"
  shows "bitlen m \<le> 54"
proof (rule ccontr)
  assume "\<not> bitlen m \<le> 54"
  then have "54 \<le> nat (bitlen m - 1)"
    by simp
  then have "(2::int) ^ 54 \<le> 2 ^ nat (bitlen m - 1)"
    by (rule power_increasing) simp
  also from bitlen_bounds [OF assms(1)] have "\<dots> \<le> m"
    by simp
  finally show False
    using assms(2) by simp
qed

lemma round53_of_pos_int:
  assumes "0 < m" and "m \<le> 2 ^ 53"
  shows "round53 (of_int m) = of_int m"
proof -
  define e where "e = bitlen m - 53"
  have e: "exponent2 (of_int m) - 52 = e"
    using assms(1) by (simp add: exponent2_of_int e_def)
  have le: "e \<le> 1"
    using bitlen_le_54 [OF assms] by (simp add: e_def)
  have "of_int (round_half_even (of_int m / pow2 e)) * pow2 e = (of_int m :: rat)"
  proof (cases "e \<le> 0")
    case True
    then have p: "pow2 e = 1 / 2 ^ nat (- e)"
      by (cases "e = 0") (simp_all add: pow2_def)
    have "of_int m / pow2 e = (of_int (m * 2 ^ nat (- e)) :: rat)"
      by (simp add: p)
    then show ?thesis
      by (simp only: round_half_even_of_int) (simp add: p)
  next
    case False
    with le have e1: "e = 1" by simp
    then have "bitlen m = 54" by (simp add: e_def)
    with bitlen_bounds [OF assms(1)] have "2 ^ 53 \<le> m"
      by simp
    with assms(2) have m: "m = 2 ^ 53" by simp
    have "of_int m / pow2 e = (of_int (2 ^ 52) :: rat)"
      by (simp add: e1 pow2_def m)
    then show ?thesis
      by (simp only: round_half_even_of_int) (simp add: e1 pow2_def m)
  qed
  with assms(1) show ?thesis
    by (simp add: round53_def e Let_def)
qed

lemma round53_uminus: "round53 (- x) = - round53 x"
  by (simp add: round53_def Let_def)

lemma round53_of_int:
  assumes "\<bar>n\<bar> \<le> 2 ^ 53"
  shows "round53 (of_int n) = of_int n"
proof (cases n "0::int" rule: linorder_cases)
  case equal
  then show ?thesis by (simp add: round53_def)
next
  case greater
  with assms show ?thesis by (simp add: round53_of_pos_int)
next
  case less
  with assms have "round53 (of_int (- n)) = of_int (- n)"
    by (intro round53_of_pos_int) simp_all
  then show ?thesis
    using round53_uminus [of "of_int n"] by simp
qed

lemma round53_whole:
  assumes "whole x" and "\<bar>x\<bar> \<le> 2 ^ 53"
  shows "round53 x = x"
proof -
  from assms(1) have "of_int \<lfloor>x\<rfloor> = x"
    unfolding whole_def .
  then have x: "x = of_int \<lfloor>x\<rfloor>"
    by (rule sym)
  with assms(2) have "(of_int \<bar>\<lfloor>x\<rfloor>\<bar> :: rat) \<le> of_int (2 ^ 53)"
    by simp
  then have "\<bar>\<lfloor>x\<rfloor>\<bar> \<le> 2 ^ 53"
    by (simp only: of_int_le_iff)
  from round53_of_int [OF this] x show ?thesis
    by simp
qed

lemma whole_add: "whole a \<Longrightarrow> whole b \<Longrightarrow> whole (a + b)"
  by (metis whole_def of_int_add of_int_floor_cancel Ints_of_int)

lemma whole_diff: "whole a \<Longrightarrow> whole b \<Longrightarrow> whole (a - b)"
  by (metis whole_def of_int_diff of_int_floor_cancel Ints_of_int)

lemma whole_0 [simp]: "whole 0"
  by (simp add: whole_def)

lemma foldl_dadd_exact:
  assumes "list_all (\<lambda>x. whole (f x)) xs" and "whole a"
    and "\<bar>a\<bar> + sum_list (map (\<lambda>x. \<bar>f x\<bar>) xs) \<le> 2 ^ 53"
  shows "foldl (\<lambda>acc x. dadd acc (f x)) a xs = a + sum_list (map f xs)"
  using assms
proof (induction xs arbitrary: a)
  case Nil
  then show ?case by simp
next
  case (Cons x xs)
  have w: "whole (a + f x)"
    using Cons.prems by (simp add: whole_add)
  have b: "\<bar>a + f x\<bar> + sum_list (map (\<lambda>x. \<bar>f x\<bar>) xs) \<le> 2 ^ 53"
    using Cons.prems(3) by simp
  have nn: "0 \<le> sum_list (map (\<lambda>x. \<bar>f x\<bar>) xs)"
    by (rule sum_list_nonneg) auto
  with b have "\<bar>a + f x\<bar> \<le> 2 ^ 53"
    by linarith
  with w have "dadd a (f x) = a + f x"
    by (simp add: dadd_def round53_whole)
  moreover have "foldl (\<lambda>acc x. dadd acc (f x)) (a + f x) xs = a + f x + sum_list (map f xs)"
    using Cons.prems(1) w b by (intro Cons.IH) simp_all
  ultimately show ?case
    by (simp add: add.assoc)
qed

lemma whole_sum_list:
  "list_all (\<lambda>x. whole (f x)) xs \<Longrightarrow> whole (sum_list (map f xs))"
  by (induction xs) (simp_all add: whole_add)

lemma abs_sum_list_le:
  "\<bar>sum_list (map f xs)\<bar> \<le> sum_list (map (\<lambda>x. \<bar>f x\<bar>) xs)"
  for f :: "'a \<Rightarrow> rat"
proof (induction xs)
  case Nil
  then show ?case by simp
next
  case (Cons a xs)
  have "\<bar>f a + sum_list (map f xs)\<bar> \<le> \<bar>f a\<bar> + \<bar>sum_list (map f xs)\<bar>"
    by (rule abs_triangle_ineq)
  with Cons show ?case by simp
qed

lemma sum_list_abs_filter_le:
  "sum_list (map (\<lambda>x. \<bar>f x\<bar>) (filter P xs)) \<le> sum_list (map (\<lambda>x. \<bar>f x\<bar>) xs)"
  for f :: "'a \<Rightarrow> rat"
proof (induction xs)
  case Nil
  then show ?case by simp
next
  case (Cons a xs)
  have "0 \<le> \<bar>f a\<bar>" by simp
  with Cons show ?case by (cases "P a") (simp_all add: add_increasing)
qed

lemma list_all_filter:
  "list_all Q xs \<Longrightarrow> list_all Q (filter P xs)"
  by (simp add: list_all_iff)

section \<open>Order of the inputs and splitting of the window, on doubles\<close>

lemma revenueData_double_figures:
  "clientProfit (revenueData_double newDate c r) =
     dsub (clientRevenue (revenueData_double newDate c r))
          (totalAdSpend (revenueData_double newDate c r))"
  "mwsProfitShare (revenueData_double newDate c r) =
     (if clientProfit (revenueData_double newDate c r) > 0
      then ddiv (dmul (clientProfit (revenueData_double newDate c r))
                      (or_zero (mws_profit_percentage c))) 100
      else 0)"
  "mwsRevenue (revenueData_double newDate c r) =
     dadd (or_zero (mws_fixed_fee c)) (mwsProfitShare (revenueData_double newDate c r))"
  "mwsFixed (revenueData_double newDate c r) = or_zero (mws_fixed_fee c)"
  "mwsPercentage (revenueData_double newDate c r) = or_zero (mws_profit_percentage c)"
  by (simp_all add: revenueData_double_def Let_def)

lemma revenueData_double_eqI:
  assumes "clientRevenue (revenueData_double newDate c' r) =
           clientRevenue (revenueData_double newDate c r)"
    and "totalAdSpend (revenueData_double newDate c' r) =
         totalAdSpend (revenueData_double newDate c r)"
    and "mws_fixed_fee c' = mws_fixed_fee c"
    and "mws_profit_percentage c' = mws_profit_percentage c"
  shows "revenueData_double newDate c' r = revenueData_double newDate c r"
proof -
  have "foldl (\<lambda>sum l. dadd sum (or_zero (lead_value l))) 0
          (filter (\<lambda>l. status l = ''Vinto'') (filtered_leads newDate c' r)) =
        foldl (\<lambda>sum l. dadd sum (or_zero (lead_value l))) 0
          (filter (\<lambda>l. status l = ''Vinto'') (filtered_leads newDate c r))"
    using assms(1) by (simp add: revenueData_double_def Let_def)
  moreover have "foldl (\<lambda>sum s. dadd sum (amount s)) 0 (filtered_spends newDate c' r) =
        foldl (\<lambda>sum s. dadd sum (amount s)) 0 (filtered_spends newDate c r)"
    using assms(2) by (simp add: revenueData_double_def Let_def)
  ultimately show ?thesis
    using assms(3,4) by (simp add: revenueData_double_def Let_def)
qed

lemma filtered_leads_sublist:
  "\<exists>P. filter (\<lambda>l. status l = ''Vinto'') (filtered_leads newDate c r) = filter P (leads c)"
  by (auto simp: filtered_leads_def)

lemma filtered_spends_sublist:
  "\<exists>P. filtered_spends newDate c r = filter P (adSpends c)"
proof (cases "range_start r \<noteq> None \<or> range_end r \<noteq> None")
  case True
  then show ?thesis by (auto simp: filtered_spends_def)
next
  case False
  then have "filtered_spends newDate c r = filter (\<lambda>s. True) (adSpends c)"
    by (simp add: filtered_spends_def)
  then show ?thesis by blast
qed

text \<open>On whole amounts the three sums of the memo are exact.\<close>

lemma whole_amounts_exact:
  assumes "whole_amounts c"
  shows "clientRevenue (revenueData_double newDate c r) = clientRevenue (revenueData newDate c r)"
    and "totalAdSpend (revenueData_double newDate c r) = totalAdSpend (revenueData newDate c r)"
    and "clientProfit (revenueData_double newDate c r) = clientProfit (revenueData newDate c r)"
    and "whole (clientRevenue (revenueData newDate c r))"
    and "whole (totalAdSpend (revenueData newDate c r))"
    and "\<bar>clientRevenue (revenueData newDate c r)\<bar> + \<bar>totalAdSpend (revenueData newDate c r)\<bar>
           \<le> 2 ^ 53"
proof -
  let ?v = "\<lambda>l. or_zero (lead_value l)"
  define L where "L = sum_list (map (\<lambda>l. \<bar>?v l\<bar>) (leads c))"
  define S where "S = sum_list (map (\<lambda>s. \<bar>amount s\<bar>) (adSpends c))"
  from assms have wl: "list_all (\<lambda>l. whole (?v l)) (leads c)"
    and ws: "list_all (\<lambda>s. whole (amount s)) (adSpends c)"
    and bound: "L + S \<le> 2 ^ 53"
    by (simp_all add: whole_amounts_def L_def S_def)
  have L0: "0 \<le> L" and S0: "0 \<le> S"
    unfolding L_def S_def by (rule sum_list_nonneg; auto)+
  obtain P where won: "filter (\<lambda>l. status l = ''Vinto'') (filtered_leads newDate c r) =
      filter P (leads c)"
    using filtered_leads_sublist by blast
  obtain Q where sp: "filtered_spends newDate c r = filter Q (adSpends c)"
    using filtered_spends_sublist by blast
  define R where "R = sum_list (map ?v (filter P (leads c)))"
  define A where "A = sum_list (map amount (filter Q (adSpends c)))"
  have wl': "list_all (\<lambda>l. whole (?v l)) (filter P (leads c))"
    using wl by (rule list_all_filter)
  have ws': "list_all (\<lambda>s. whole (amount s)) (filter Q (adSpends c))"
    using ws by (rule list_all_filter)
  have bl: "sum_list (map (\<lambda>l. \<bar>?v l\<bar>) (filter P (leads c))) \<le> L"
    unfolding L_def by (rule sum_list_abs_filter_le)
  have bs: "sum_list (map (\<lambda>s. \<bar>amount s\<bar>) (filter Q (adSpends c))) \<le> S"
    unfolding S_def by (rule sum_list_abs_filter_le)
  have Rb: "\<bar>R\<bar> \<le> L"
    unfolding R_def using abs_sum_list_le [of ?v "filter P (leads c)"] bl by linarith
  have Ab: "\<bar>A\<bar> \<le> S"
    unfolding A_def using abs_sum_list_le [of amount "filter Q (adSpends c)"] bs by linarith
  have Rw: "whole R"
    unfolding R_def using wl' by (rule whole_sum_list)
  have Aw: "whole A"
    unfolding A_def using ws' by (rule whole_sum_list)
  have exactR: "clientRevenue (revenueData newDate c r) = R"
    by (simp add: revenueData_sums won R_def)
  have exactA: "totalAdSpend (revenueData newDate c r) = A"
    by (simp add: revenueData_sums sp A_def)
  have "foldl (\<lambda>acc l. dadd acc (?v l)) 0 (filter P (leads c)) = 0 + R"
    unfolding R_def using wl' bl bound S0 by (intro foldl_dadd_exact) simp_all
  then have dR: "clientRevenue (revenueData_double newDate c r) = R"
    by (simp add: revenueData_double_def Let_def won)
  have "foldl (\<lambda>acc s. dadd acc (amount s)) 0 (filter Q (adSpends c)) = 0 + A"
    unfolding A_def using ws' bs bound L0 by (intro foldl_dadd_exact) simp_all
  then have dA: "totalAdSpend (revenueData_double newDate c r) = A"
    by (simp add: revenueData_double_def Let_def sp)
  have "\<bar>R - A\<bar> \<le> 2 ^ 53"
    using Rb Ab bound by linarith
  with Rw Aw have "dsub R A = R - A"
    by (simp add: dsub_def round53_whole whole_diff)
  then have dP: "clientProfit (revenueData_double newDate c r) = R - A"
    by (simp add: revenueData_double_figures dR dA)
  show "clientRevenue (revenueData_double newDate c r) = clientRevenue (revenueData newDate c r)"
    by (simp add: dR exactR)
  show "totalAdSpend (revenueData_double newDate c r) = totalAdSpend (revenueData newDate c r)"
    by (simp add: dA exactA)
  show "clientProfit (revenueData_double newDate c r) = clientProfit (revenueData newDate c r)"
    by (simp add: dP clientProfit_eq exactR exactA)
  show "whole (clientRevenue (revenueData newDate c r))"
    by (simp add: exactR Rw)
  show "whole (totalAdSpend (revenueData newDate c r))"
    by (simp add: exactA Aw)
  show "\<bar>clientRevenue (revenueData newDate c r)\<bar> + \<bar>totalAdSpend (revenueData newDate c r)\<bar>
           \<le> 2 ^ 53"
    using Rb Ab bound by (simp add: exactR exactA)
qed

lemma whole_amounts_permute:
  assumes "whole_amounts c" and "mset (leads c') = mset (leads c)"
    and "mset (adSpends c') = mset (adSpends c)"
  shows "whole_amounts c'"
proof -
  have s: "set (leads c') = set (leads c)" "set (adSpends c') = set (adSpends c)"
    using assms(2,3) by (metis mset_eq_setD)+
  have "mset (map (\<lambda>l. \<bar>or_zero (lead_value l)\<bar>) (leads c')) =
        mset (map (\<lambda>l. \<bar>or_zero (lead_value l)\<bar>) (leads c))"
    using assms(2) by (metis mset_map)
  then have l: "sum_list (map (\<lambda>l. \<bar>or_zero (lead_value l)\<bar>) (leads c')) =
        sum_list (map (\<lambda>l. \<bar>or_zero (lead_value l)\<bar>) (leads c))"
    by (metis sum_mset_sum_list)
  have "mset (map (\<lambda>s. \<bar>amount s\<bar>) (adSpends c')) = mset (map (\<lambda>s. \<bar>amount s\<bar>) (adSpends c))"
    using assms(3) by (metis mset_map)
  then have a: "sum_list (map (\<lambda>s. \<bar>amount s\<bar>) (adSpends c')) =
        sum_list (map (\<lambda>s. \<bar>amount s\<bar>) (adSpends c))"
    by (metis sum_mset_sum_list)
  from assms(1) show ?thesis
    by (simp add: whole_amounts_def list_all_iff s l a)
qed

lemma dadd_whole_exact:
  assumes "whole x" and "\<bar>x\<bar> \<le> 2 ^ 53" and "x = a + b"
  shows "x = dadd a b"
  using round53_whole [OF assms(1,2)] assms(3) by (simp add: dadd_def)

text \<open>
  C8. The memo as the source computes it, on doubles (\<open>revenueData_double\<close>), for a
  client whose lead values and ad-spend amounts are whole numbers with absolute values
  summing to at most \<open>2 ^ 53\<close> (\<open>whole_amounts\<close>): permuting the leads or the ad spends
  leaves every figure unchanged; when a window \<open>[s, e]\<close> is split into \<open>[s, m]\<close> and
  \<open>[m + 1, e]\<close>, the won revenue, the ad spend and the client profit of the two parts add
  up to those of the whole window, exactly and therefore also with the addition of
  doubles; the commission of the whole window is the fixed fee plus the share on the sum
  of the two profits, taken once. Nothing is claimed for the sum of the two commissions,
  and nothing for fractional amounts.
\<close>

theorem revenueData_double_order_and_windows:
  "whole_amounts c \<longrightarrow>
   (mset (leads c') = mset (leads c) \<and> mset (adSpends c') = mset (adSpends c) \<and>
    mws_fixed_fee c' = mws_fixed_fee c \<and> mws_profit_percentage c' = mws_profit_percentage c
      \<longrightarrow> revenueData_double newDate c' r = revenueData_double newDate c r) \<and>
   (s \<le> m \<and> m < e \<longrightarrow>
      clientRevenue (revenueData_double newDate c (window s e)) =
        clientRevenue (revenueData_double newDate c (window s m)) +
        clientRevenue (revenueData_double newDate c (window (m + 1) e)) \<and>
      clientRevenue (revenueData_double newDate c (window s e)) =
        dadd (clientRevenue (revenueData_double newDate c (window s m)))
             (clientRevenue (revenueData_double newDate c (window (m + 1) e))) \<and>
      totalAdSpend (revenueData_double newDate c (window s e)) =
        totalAdSpend (revenueData_double newDate c (window s m)) +
        totalAdSpend (revenueData_double newDate c (window (m + 1) e)) \<and>
      totalAdSpend (revenueData_double newDate c (window s e)) =
        dadd (totalAdSpend (revenueData_double newDate c (window s m)))
             (totalAdSpend (revenueData_double newDate c (window (m + 1) e))) \<and>
      clientProfit (revenueData_double newDate c (window s e)) =
        clientProfit (revenueData_double newDate c (window s m)) +
        clientProfit (revenueData_double newDate c (window (m + 1) e)) \<and>
      clientProfit (revenueData_double newDate c (window s e)) =
        dadd (clientProfit (revenueData_double newDate c (window s m)))
             (clientProfit (revenueData_double newDate c (window (m + 1) e))) \<and>
      mwsRevenue (revenueData_double newDate c (window s e)) =
        dadd (or_zero (mws_fixed_fee c))
          (if 0 < clientProfit (revenueData_double newDate c (window s m)) +
                  clientProfit (revenueData_double newDate c (window (m + 1) e))
           then ddiv (dmul (clientProfit (revenueData_double newDate c (window s m)) +
                            clientProfit (revenueData_double newDate c (window (m + 1) e)))
                           (or_zero (mws_profit_percentage c))) 100
           else 0))"
proof (intro impI conjI)
  assume W: "whole_amounts c"
  assume "mset (leads c') = mset (leads c) \<and> mset (adSpends c') = mset (adSpends c) \<and>
    mws_fixed_fee c' = mws_fixed_fee c \<and> mws_profit_percentage c' = mws_profit_percentage c"
  then have p: "mset (leads c') = mset (leads c)" "mset (adSpends c') = mset (adSpends c)"
    "mws_fixed_fee c' = mws_fixed_fee c" "mws_profit_percentage c' = mws_profit_percentage c"
    by simp_all
  have W': "whole_amounts c'"
    using W p(1,2) by (rule whole_amounts_permute)
  have same: "revenueData newDate c' r = revenueData newDate c r"
    using p by (rule revenueData_permute)
  show "revenueData_double newDate c' r = revenueData_double newDate c r"
  proof (rule revenueData_double_eqI)
    show "clientRevenue (revenueData_double newDate c' r) =
          clientRevenue (revenueData_double newDate c r)"
      by (simp add: whole_amounts_exact(1) [OF W] whole_amounts_exact(1) [OF W'] same)
    show "totalAdSpend (revenueData_double newDate c' r) =
          totalAdSpend (revenueData_double newDate c r)"
      by (simp add: whole_amounts_exact(2) [OF W] whole_amounts_exact(2) [OF W'] same)
  qed (rule p(3), rule p(4))
next
  assume W: "whole_amounts c" and sm: "s \<le> m \<and> m < e"
  note E = whole_amounts_exact [OF W, of newDate]
  let ?whole = "revenueData newDate c (window s e)"
  have R: "clientRevenue (revenueData_double newDate c (window s e)) =
        clientRevenue (revenueData_double newDate c (window s m)) +
        clientRevenue (revenueData_double newDate c (window (m + 1) e))"
    using sm by (simp add: E(1) clientRevenue_window spec_wonRevenue_split)
  have A: "totalAdSpend (revenueData_double newDate c (window s e)) =
        totalAdSpend (revenueData_double newDate c (window s m)) +
        totalAdSpend (revenueData_double newDate c (window (m + 1) e))"
    using sm by (simp add: E(2) totalAdSpend_window spec_adSpend_split)
  have P: "clientProfit (revenueData_double newDate c (window s e)) =
        clientProfit (revenueData_double newDate c (window s m)) +
        clientProfit (revenueData_double newDate c (window (m + 1) e))"
    using sm by (simp add: E(3) clientProfit_split)
  have bR: "\<bar>clientRevenue ?whole\<bar> \<le> 2 ^ 53" and bA: "\<bar>totalAdSpend ?whole\<bar> \<le> 2 ^ 53"
    and bP: "\<bar>clientProfit ?whole\<bar> \<le> 2 ^ 53"
    using E(6) [of "window s e"] unfolding clientProfit_eq by linarith+
  have wP: "whole (clientProfit ?whole)"
    by (simp add: clientProfit_eq whole_diff E(4,5))
  show "clientRevenue (revenueData_double newDate c (window s e)) =
        clientRevenue (revenueData_double newDate c (window s m)) +
        clientRevenue (revenueData_double newDate c (window (m + 1) e))"
    by (rule R)
  show "clientRevenue (revenueData_double newDate c (window s e)) =
        dadd (clientRevenue (revenueData_double newDate c (window s m)))
             (clientRevenue (revenueData_double newDate c (window (m + 1) e)))"
    by (rule dadd_whole_exact [OF _ _ R]) (use bR in \<open>simp_all add: E(1) E(4)\<close>)
  show "totalAdSpend (revenueData_double newDate c (window s e)) =
        totalAdSpend (revenueData_double newDate c (window s m)) +
        totalAdSpend (revenueData_double newDate c (window (m + 1) e))"
    by (rule A)
  show "totalAdSpend (revenueData_double newDate c (window s e)) =
        dadd (totalAdSpend (revenueData_double newDate c (window s m)))
             (totalAdSpend (revenueData_double newDate c (window (m + 1) e)))"
    by (rule dadd_whole_exact [OF _ _ A]) (use bA in \<open>simp_all add: E(2) E(5)\<close>)
  show "clientProfit (revenueData_double newDate c (window s e)) =
        clientProfit (revenueData_double newDate c (window s m)) +
        clientProfit (revenueData_double newDate c (window (m + 1) e))"
    by (rule P)
  show "clientProfit (revenueData_double newDate c (window s e)) =
        dadd (clientProfit (revenueData_double newDate c (window s m)))
             (clientProfit (revenueData_double newDate c (window (m + 1) e)))"
    by (rule dadd_whole_exact [OF _ _ P]) (use bP in \<open>simp_all add: E(3) wP\<close>)
  show "mwsRevenue (revenueData_double newDate c (window s e)) =
        dadd (or_zero (mws_fixed_fee c))
          (if 0 < clientProfit (revenueData_double newDate c (window s m)) +
                  clientProfit (revenueData_double newDate c (window (m + 1) e))
           then ddiv (dmul (clientProfit (revenueData_double newDate c (window s m)) +
                            clientProfit (revenueData_double newDate c (window (m + 1) e)))
                           (or_zero (mws_profit_percentage c))) 100
           else 0)"
    unfolding P [symmetric] by (simp add: revenueData_double_figures(2,3))
qed

theorem revenueData_double_order_and_windows_witness:
  "whole_amounts whole_client \<and>
   revenueData_double example_newDate
     (whole_client \<lparr> leads := rev (leads whole_client), adSpends := rev (adSpends whole_client) \<rparr>)
     (window 1 31) =
   revenueData_double example_newDate whole_client (window 1 31) \<and>
   clientRevenue (revenueData_double example_newDate whole_client (window 1 10)) = 1040 \<and>
   clientRevenue (revenueData_double example_newDate whole_client (window 11 31)) = 250 \<and>
   clientRevenue (revenueData_double example_newDate whole_client (window 1 31)) = 1290 \<and>
   totalAdSpend (revenueData_double example_newDate whole_client (window 1 10)) = 90 \<and>
   totalAdSpend (revenueData_double example_newDate whole_client (window 11 31)) = 200 \<and>
   totalAdSpend (revenueData_double example_newDate whole_client (window 1 31)) = 290 \<and>
   clientProfit (revenueData_double example_newDate whole_client (window 1 10)) = 950 \<and>
   clientProfit (revenueData_double example_newDate whole_client (window 11 31)) = 50 \<and>
   clientProfit (revenueData_double example_newDate whole_client (window 1 31)) = 1000 \<and>
   mwsRevenue (revenueData_double example_newDate whole_client (window 1 31)) = 300"
proof -
  have w: "whole_amounts whole_client"
    by code_simp
  have p: "mset (leads (whole_client \<lparr> leads := rev (leads whole_client),
                adSpends := rev (adSpends whole_client) \<rparr>)) = mset (leads whole_client)"
    "mset (adSpends (whole_client \<lparr> leads := rev (leads whole_client),
                adSpends := rev (adSpends whole_client) \<rparr>)) = mset (adSpends whole_client)"
    by simp_all
  have h: "clientRevenue (revenueData_double example_newDate whole_client (window 1 10)) = 1040"
    "clientRevenue (revenueData_double example_newDate whole_client (window 11 31)) = 250"
    "totalAdSpend (revenueData_double example_newDate whole_client (window 1 10)) = 90"
    "totalAdSpend (revenueData_double example_newDate whole_client (window 11 31)) = 200"
    "clientProfit (revenueData_double example_newDate whole_client (window 1 10)) = 950"
    "clientProfit (revenueData_double example_newDate whole_client (window 11 31)) = 50"
    by code_simp+
  have f: "or_zero (mws_fixed_fee whole_client) = 100"
    "or_zero (mws_profit_percentage whole_client) = 20"
    by code_simp+
  have d: "dadd 100 (ddiv (dmul 1000 20) 100) = 300"
    by code_simp
  show ?thesis
    using revenueData_double_order_and_windows
      [where c = whole_client
         and c' = "whole_client \<lparr> leads := rev (leads whole_client),
                adSpends := rev (adSpends whole_client) \<rparr>"
         and s = 1 and m = 10 and e = 31 and newDate = example_newDate and r = "window 1 31"]
    by (simp add: w p h f d)
qed

theorem revenue_window_additive_counterexample:
  "mwsRevenue (revenueData_double example_newDate fee_only_client (window 0 4)) = 100 \<and>
   mwsRevenue (revenueData_double example_newDate fee_only_client (window 5 9)) = 100 \<and>
   mwsRevenue (revenueData_double example_newDate fee_only_client (window 0 9)) = 100 \<and>
   mwsRevenue (revenueData_double example_newDate mixed_client (window 1 10)) = 200 \<and>
   mwsRevenue (revenueData_double example_newDate mixed_client (window 11 31)) = 0 \<and>
   mwsRevenue (revenueData_double example_newDate mixed_client (window 1 31)) = 0 \<and>
   mwsRevenue (revenueData_double example_newDate small_client (window 1 10)) = dbl (2 / 10) \<and>
   mwsRevenue (revenueData_double example_newDate small_client (window 11 31)) = dbl (4 / 10) \<and>
   mwsRevenue (revenueData_double example_newDate small_client (window 1 31)) = dbl (6 / 10) \<and>
   dadd (dbl (2 / 10)) (dbl (4 / 10)) \<noteq> dbl (6 / 10) \<and>
   dbl (2 / 10) + dbl (4 / 10) \<noteq> dbl (6 / 10) \<and>
   clientRevenue (revenueData_double example_newDate tenths_client (window 1 31)) \<noteq>
   clientRevenue (revenueData_double example_newDate
     (tenths_client \<lparr> leads := rev (leads tenths_client) \<rparr>) (window 1 31)) \<and>
   clientRevenue (revenueData_double example_newDate tenths_client (window 1 31)) \<noteq>
   dadd (clientRevenue (revenueData_double example_newDate tenths_client (window 1 10)))
        (clientRevenue (revenueData_double example_newDate tenths_client (window 11 31)))"
  by code_simp

section \<open>Properties of the payment reconciliation\<close>

lemma handleSave_accepts:
  assumes "0 \<le> a" and "isPaidInFull \<or> a \<le> remainingDue totalDue existingPaidAmount"
  shows "handleSave totalDue existingPaidAmount isPaidInFull (Some a) =
           Inr \<lparr> paid_total =
                    dadd existingPaidAmount
                      (if isPaidInFull then remainingDue totalDue existingPaidAmount else a),
                  isTotal =
                    (isPaidInFull \<or>
                     totalDue \<le> dadd existingPaidAmount
                       (if isPaidInFull then remainingDue totalDue existingPaidAmount else a)) \<rparr>"
  using assms by (auto simp: handleSave_def Let_def)

text \<open>
  For whole amounts the difference and the sum are exact, so a payment in full brings the
  paid amount to the total due, or leaves it where it was when that was already more.
\<close>

lemma paid_in_full_whole:
  assumes "whole t" and "whole x" and "\<bar>t\<bar> + \<bar>x\<bar> \<le> 2 ^ 53"
  shows "dadd x (remainingDue t x) = max t x"
proof -
  have "\<bar>t - x\<bar> \<le> 2 ^ 53" and bt: "\<bar>t\<bar> \<le> 2 ^ 53" and bx: "\<bar>x\<bar> \<le> 2 ^ 53"
    using assms(3) by linarith+
  with assms(1,2) have d: "dsub t x = t - x"
    by (simp add: dsub_def round53_whole whole_diff)
  show ?thesis
  proof (cases "x \<le> t")
    case True
    then have "dadd x (remainingDue t x) = round53 t"
      by (simp add: remainingDue_def d dadd_def max_def)
    with True show ?thesis
      by (simp add: round53_whole [OF assms(1) bt] max_def)
  next
    case False
    then have "dadd x (remainingDue t x) = round53 x"
      by (simp add: remainingDue_def d dadd_def max_def)
    with False show ?thesis
      by (simp add: round53_whole [OF assms(2) bx] max_def)
  qed
qed

text \<open>
  C2. All sums and differences are those of the source's double arithmetic, and the
  remaining due is \<open>max(0, totalDue - existingPaid)\<close>. When the entered amount is a number
  that is not negative and, unless the payment is marked paid in full, does not exceed
  the remaining due, the saved paid amount is the existing paid amount plus the remaining
  due (paid in full) or plus the entered amount (otherwise), and the saved status is paid
  iff the payment is marked paid in full or the new paid amount reaches the total due,
  else partially paid iff the new paid amount is positive, else unpaid; when the total due
  and the existing paid amount are whole numbers with absolute values summing to at most
  \<open>2 ^ 53\<close>, that status is the one the specification gives: paid iff the new paid amount
  reaches the total due, else partially paid iff it is positive, else unpaid. An entered
  amount above the remaining due, when the payment is not marked paid in full, is
  rejected with the overpayment error and nothing is saved; an amount that is not a
  number or is negative is rejected as invalid.
\<close>

theorem savePayment_reconciles:
  "(0 \<le> a \<and> (isPaidInFull \<or> a \<le> remainingDue totalDue existingPaidAmount) \<longrightarrow>
      (\<exists>p. savePayment totalDue existingPaidAmount isPaidInFull (Some a) = Inr p \<and>
           revenue_amount p = totalDue \<and>
           paid_amount p =
             dadd existingPaidAmount
               (if isPaidInFull then remainingDue totalDue existingPaidAmount else a) \<and>
           (payment_status p = paid \<longleftrightarrow> isPaidInFull \<or> totalDue \<le> paid_amount p) \<and>
           (payment_status p = partially_paid \<longleftrightarrow>
              \<not> (isPaidInFull \<or> totalDue \<le> paid_amount p) \<and> 0 < paid_amount p) \<and>
           (payment_status p = unpaid \<longleftrightarrow>
              \<not> (isPaidInFull \<or> totalDue \<le> paid_amount p) \<and> \<not> 0 < paid_amount p) \<and>
           (whole totalDue \<and> whole existingPaidAmount \<and>
            \<bar>totalDue\<bar> + \<bar>existingPaidAmount\<bar> \<le> 2 ^ 53 \<longrightarrow>
              payment_status p = spec_status totalDue (paid_amount p)))) \<and>
   (0 \<le> a \<and> \<not> isPaidInFull \<and> remainingDue totalDue existingPaidAmount < a \<longrightarrow>
      savePayment totalDue existingPaidAmount isPaidInFull (Some a) = Inl error_overpayment) \<and>
   (a < 0 \<longrightarrow>
      savePayment totalDue existingPaidAmount isPaidInFull (Some a) = Inl error_invalid_amount) \<and>
   savePayment totalDue existingPaidAmount isPaidInFull None = Inl error_invalid_amount"
proof (intro conjI impI)
  assume h: "0 \<le> a \<and> (isPaidInFull \<or> a \<le> remainingDue totalDue existingPaidAmount)"
  define n where "n = dadd existingPaidAmount
      (if isPaidInFull then remainingDue totalDue existingPaidAmount else a)"
  define st where "st = (if isPaidInFull \<or> totalDue \<le> n then paid
      else if 0 < n then partially_paid else unpaid)"
  let ?p = "\<lparr> revenue_amount = totalDue, paid_amount = n, payment_status = st \<rparr>"
  from h have "handleSave totalDue existingPaidAmount isPaidInFull (Some a) =
           Inr \<lparr> paid_total = n, isTotal = (isPaidInFull \<or> totalDue \<le> n) \<rparr>"
    unfolding n_def by (intro handleSave_accepts) simp_all
  then have saved: "savePayment totalDue existingPaidAmount isPaidInFull (Some a) = Inr ?p"
    by (simp add: savePayment_def handleSavePayment_def st_def)
  have spec: "st = spec_status totalDue n"
    if w: "whole totalDue \<and> whole existingPaidAmount \<and>
           \<bar>totalDue\<bar> + \<bar>existingPaidAmount\<bar> \<le> 2 ^ 53"
  proof (cases isPaidInFull)
    case True
    then have "n = max totalDue existingPaidAmount"
      using w by (simp add: n_def paid_in_full_whole)
    then have "totalDue \<le> n"
      by simp
    then show ?thesis
      by (simp add: st_def spec_status_def)
  next
    case False
    then show ?thesis
      by (simp add: st_def spec_status_def)
  qed
  show "\<exists>p. savePayment totalDue existingPaidAmount isPaidInFull (Some a) = Inr p \<and>
           revenue_amount p = totalDue \<and>
           paid_amount p =
             dadd existingPaidAmount
               (if isPaidInFull then remainingDue totalDue existingPaidAmount else a) \<and>
           (payment_status p = paid \<longleftrightarrow> isPaidInFull \<or> totalDue \<le> paid_amount p) \<and>
           (payment_status p = partially_paid \<longleftrightarrow>
              \<not> (isPaidInFull \<or> totalDue \<le> paid_amount p) \<and> 0 < paid_amount p) \<and>
           (payment_status p = unpaid \<longleftrightarrow>
              \<not> (isPaidInFull \<or> totalDue \<le> paid_amount p) \<and> \<not> 0 < paid_amount p) \<and>
           (whole totalDue \<and> whole existingPaidAmount \<and>
            \<bar>totalDue\<bar> + \<bar>existingPaidAmount\<bar> \<le> 2 ^ 53 \<longrightarrow>
              payment_status p = spec_status totalDue (paid_amount p))"
  proof (rule exI [of _ ?p], intro conjI impI)
    show "savePayment totalDue existingPaidAmount isPaidInFull (Some a) = Inr ?p"
      by (rule saved)
    show "revenue_amount ?p = totalDue"
      by simp
    show "paid_amount ?p =
             dadd existingPaidAmount
               (if isPaidInFull then remainingDue totalDue existingPaidAmount else a)"
      by (simp add: n_def)
    show "(payment_status ?p = paid) = (isPaidInFull \<or> totalDue \<le> paid_amount ?p)"
      by (simp add: st_def)
    show "(payment_status ?p = partially_paid) =
          (\<not> (isPaidInFull \<or> totalDue \<le> paid_amount ?p) \<and> 0 < paid_amount ?p)"
      by (simp add: st_def)
    show "(payment_status ?p = unpaid) =
          (\<not> (isPaidInFull \<or> totalDue \<le> paid_amount ?p) \<and> \<not> 0 < paid_amount ?p)"
      by (simp add: st_def)
    assume "whole totalDue \<and> whole existingPaidAmount \<and>
            \<bar>totalDue\<bar> + \<bar>existingPaidAmount\<bar> \<le> 2 ^ 53"
    then show "payment_status ?p = spec_status totalDue (paid_amount ?p)"
      using spec by simp
  qed
next
  assume "0 \<le> a \<and> \<not> isPaidInFull \<and> remainingDue totalDue existingPaidAmount < a"
  then show "savePayment totalDue existingPaidAmount isPaidInFull (Some a) = Inl error_overpayment"
    by (simp add: savePayment_def handleSave_def)
next
  assume "a < 0"
  then show "savePayment totalDue existingPaidAmount isPaidInFull (Some a) =
      Inl error_invalid_amount"
    by (simp add: savePayment_def handleSave_def)
next
  show "savePayment totalDue existingPaidAmount isPaidInFull None = Inl error_invalid_amount"
    by (simp add: savePayment_def handleSave_def)
qed

lemma remainingDue_260: "remainingDue 260 0 = 260"
  by code_simp

lemma remainingDue_tenths:
  "remainingDue (dbl (3 / 10)) (dbl (1 / 10)) = 7205759403792793 / 36028797018963968"
  by code_simp

lemma dbl_fifth: "dbl (1 / 5) = 7205759403792794 / 36028797018963968"
  by code_simp

lemma dadd_0_100: "dadd 0 100 = 100"
  by code_simp

lemma dadd_0_260: "dadd 0 260 = 260"
  by code_simp

lemmas remainingDue_examples =
  remainingDue_260 remainingDue_tenths dbl_fifth dadd_0_100 dadd_0_260

lemma whole_260_0: "whole (260 :: rat)" "whole (0 :: rat)"
  by code_simp+

theorem savePayment_reconciles_witness:
  "(\<exists>p. savePayment 260 0 False (Some 100) = Inr p \<and> revenue_amount p = 260 \<and>
        paid_amount p = 100 \<and> payment_status p = partially_paid \<and>
        payment_status p = spec_status 260 100) \<and>
   (\<exists>p. savePayment 260 0 True (Some 260) = Inr p \<and> revenue_amount p = 260 \<and>
        paid_amount p = 260 \<and> payment_status p = paid \<and>
        payment_status p = spec_status 260 260) \<and>
   savePayment 260 0 False (Some 300) = Inl error_overpayment \<and>
   savePayment (dbl (3 / 10)) (dbl (1 / 10)) False (Some (dbl (1 / 5))) = Inl error_overpayment \<and>
   savePayment 260 0 False (Some (- 1)) = Inl error_invalid_amount"
proof -
  note r = remainingDue_examples whole_260_0
  have "\<exists>p. savePayment 260 0 False (Some 100) = Inr p \<and> revenue_amount p = 260 \<and>
        paid_amount p = 100 \<and> payment_status p = partially_paid \<and>
        payment_status p = spec_status 260 100"
    using savePayment_reconciles [of 100 False 260 0] by (auto simp: r)
  moreover have "\<exists>p. savePayment 260 0 True (Some 260) = Inr p \<and> revenue_amount p = 260 \<and>
        paid_amount p = 260 \<and> payment_status p = paid \<and>
        payment_status p = spec_status 260 260"
    using savePayment_reconciles [of 260 True 260 0] by (auto simp: r)
  moreover have "savePayment 260 0 False (Some 300) = Inl error_overpayment"
    using savePayment_reconciles [of 300 False 260 0] by (simp add: r)
  moreover have "savePayment (dbl (3 / 10)) (dbl (1 / 10)) False (Some (dbl (1 / 5))) =
      Inl error_overpayment"
    using savePayment_reconciles [of "dbl (1 / 5)" False "dbl (3 / 10)" "dbl (1 / 10)"]
    by (simp add: r)
  moreover have "savePayment 260 0 False (Some (- 1)) = Inl error_invalid_amount"
    using savePayment_reconciles [of "- 1" False 260 0] by simp
  ultimately show ?thesis
    by blast
qed

theorem payment_clamp_counterexample:
  "savePayment 260 0 False (Some 300) = Inl error_overpayment \<and>
   spec_new_paid_amount 260 0 False 300 = 260 \<and>
   savePayment (dbl (5951 / 100)) (dbl (2744 / 100)) True (Some (dbl (3207 / 100))) =
     Inr \<lparr> revenue_amount = dbl (5951 / 100),
           paid_amount = 261727747875799 / 4398046511104,
           payment_status = paid \<rparr> \<and>
   261727747875799 / 4398046511104 < dbl (5951 / 100) \<and>
   spec_status (dbl (5951 / 100)) (261727747875799 / 4398046511104) = partially_paid"
  by code_simp

section \<open>Properties of unpackMwsSettings\<close>

lemma map_of_set_prop:
  "map_of (set_prop k v kvs) = (map_of kvs)(k := v)"
  by (cases v) (simp_all add: set_prop_def AList.update_conv' AList.delete_conv')

lemma prop_set_prop:
  "js_prop (JObj (set_prop k v kvs)) k' = (if k' = k then v else map_of kvs k')"
  by (simp add: map_of_set_prop)

lemma unpack_services:
  assumes "truthy c"
  shows "js_prop (unpackMwsSettings P c) ''services'' =
           Some (JArr (filter not_mws_settings
             (array_or_empty (parse_if_string P (map_of (spread c) ''services'')))))"
  using assms by (simp add: unpackMwsSettings_def Let_def map_of_set_prop)

lemma unpack_fixed_fee:
  assumes "truthy c"
  shows "js_prop (unpackMwsSettings P c) ''mws_fixed_fee'' =
           (case find is_mws_settings
                   (array_or_empty (parse_if_string P (map_of (spread c) ''services''))) of
              None \<Rightarrow> map_of (spread c) ''mws_fixed_fee''
            | Some m \<Rightarrow> js_prop m ''mws_fixed_fee'')"
  using assms
  by (simp add: unpackMwsSettings_def Let_def map_of_set_prop split: option.splits)

lemma unpack_profit_percentage:
  assumes "truthy c"
  shows "js_prop (unpackMwsSettings P c) ''mws_profit_percentage'' =
           (case find is_mws_settings
                   (array_or_empty (parse_if_string P (map_of (spread c) ''services''))) of
              None \<Rightarrow> map_of (spread c) ''mws_profit_percentage''
            | Some m \<Rightarrow> js_prop m ''mws_profit_percentage'')"
  using assms
  by (simp add: unpackMwsSettings_def Let_def map_of_set_prop split: option.splits)


lemma array_or_empty_malformed:
  assumes "malformed_services P raw"
  shows "array_or_empty (parse_if_string P raw) = []"
  using assms
  by (auto simp: malformed_services_def parse_if_string_def array_or_empty_def
      split: option.splits json.splits)

text \<open>
  C10. For a client object whose services value is a string that does not parse, a string
  that parses to something other than an array, or any value that is neither a string nor
  an array (including a missing one), \<open>unpackMwsSettings\<close> returns an object whose services
  list is empty and whose two commission fields are what they were in the argument, so
  unset when the argument has none. The function has no failing branch.
\<close>

theorem unpackMwsSettings_malformed_services:
  assumes "malformed_services P (map_of client ''services'')"
  shows "js_prop (unpackMwsSettings P (JObj client)) ''services'' = Some (JArr []) \<and>
         js_prop (unpackMwsSettings P (JObj client)) ''mws_fixed_fee'' =
           map_of client ''mws_fixed_fee'' \<and>
         js_prop (unpackMwsSettings P (JObj client)) ''mws_profit_percentage'' =
           map_of client ''mws_profit_percentage''"
  using array_or_empty_malformed [OF assms]
  by (simp add: unpack_services unpack_fixed_fee unpack_profit_percentage)

theorem unpackMwsSettings_malformed_services_witness:
  "malformed_services example_parse (map_of broken_row ''services'') \<and>
   js_prop (unpackMwsSettings example_parse (JObj broken_row)) ''services'' = Some (JArr []) \<and>
   js_prop (unpackMwsSettings example_parse (JObj broken_row)) ''mws_fixed_fee'' = None \<and>
   js_prop (unpackMwsSettings example_parse (JObj broken_row)) ''mws_profit_percentage'' = None"
proof -
  have m: "malformed_services example_parse (map_of broken_row ''services'')"
    by (simp add: malformed_services_def broken_row_def example_parse_def)
  show ?thesis
    using m unpackMwsSettings_malformed_services [OF m]
    by (simp add: broken_row_def)
qed

section \<open>Properties of the client read operations\<close>

lemma services_with_leads_and_spends:
  "js_prop (with_leads_and_spends u l a) ''services'' = map_of (spread u) ''services''"
  by (simp add: with_leads_and_spends_def map_of_set_prop)

lemma spread_falsy:
  "\<not> truthy c \<Longrightarrow> spread c = []"
  by (cases c) simp_all

lemma spread_unpack:
  "truthy c \<Longrightarrow> map_of (spread (unpackMwsSettings P c)) k = js_prop (unpackMwsSettings P c) k"
  by (simp add: unpackMwsSettings_def Let_def)

lemma not_exposed_after_unpack:
  "\<not> exposes_mws_settings (with_leads_and_spends (unpackMwsSettings P c) l a)"
proof (cases "truthy c")
  case False
  then have "unpackMwsSettings P c = c"
    by (simp add: unpackMwsSettings_def)
  with False show ?thesis
    by (simp add: exposes_mws_settings_def services_with_leads_and_spends spread_falsy
        array_or_empty_def)
next
  case True
  then show ?thesis
    by (simp add: exposes_mws_settings_def services_with_leads_and_spends spread_unpack
        unpack_services array_or_empty_def list_ex_iff not_mws_settings_def)
qed

section \<open>Reading one client\<close>



lemma client_with_data_Inr:
  assumes "client_with_data P b c = Inr v"
  shows "\<exists>l a. v = with_leads_and_spends (unpackMwsSettings P (JObj c)) l a"
  using assms by (auto simp: client_with_data_def split: awaited.splits)


lemma Promise_all_Inr:
  "Promise_all ps = Inr vs \<Longrightarrow> ps = map Inr vs"
proof (induction ps arbitrary: vs rule: Promise_all.induct)
  case 1
  then show ?case by simp
next
  case (2 e ps)
  then show ?case by simp
next
  case (3 v ps)
  then show ?case by (auto split: sum.splits)
qed





lemma unpacked_services_without_settings:
  "list_all (\<lambda>s. \<not> is_mws_settings s)
     (array_or_empty (js_prop (unpackMwsSettings P (JObj client)) ''services''))"
  by (simp add: unpack_services array_or_empty_def list_all_iff not_mws_settings_def
      is_mws_settings_def)

section \<open>Properties of updateClient\<close>

lemma keeps_id_True:
  "keeps_id i = Inr True \<Longrightarrow> \<exists>t. i = Some (JStr t) \<and> t \<noteq> [] \<and> \<not> startsWith t ''new_''"
  by (auto simp: keeps_id_def truthy_val_def split: if_splits option.splits json.splits)

lemma keeps_id_mws: "keeps_id (Some (JStr ''mws_settings'')) = Inr True"
  by (simp add: keeps_id_def truthy_val_def startsWith_def)

lemma service_with_ids_shape:
  assumes "service_with_ids fresh i s = Inr s'"
  shows "\<exists>kvs. s' = JObj kvs \<and>
           (\<forall>k. k \<noteq> ''id'' \<and> k \<noteq> ''fields'' \<longrightarrow> map_of kvs k = map_of (spread s) k) \<and>
           (map_of kvs ''id'' = Some (JStr ''mws_settings'') \<longleftrightarrow>
              js_prop s ''id'' = Some (JStr ''mws_settings''))"
  using assms
  apply (auto simp: service_with_ids_def Let_def map_of_set_prop keeps_id_mws
      split: if_splits sum.splits option.splits json.splits dest!: keeps_id_True)
  done

lemma service_with_ids_is_mws:
  assumes "service_with_ids fresh i s = Inr s'"
  shows "is_mws_settings s' \<longleftrightarrow> is_mws_settings s"
proof -
  from service_with_ids_shape [OF assms] obtain kvs where
    s': "s' = JObj kvs" and
    i: "map_of kvs ''id'' = Some (JStr ''mws_settings'') \<longleftrightarrow>
          js_prop s ''id'' = Some (JStr ''mws_settings'')"
    by blast
  have "js_prop s ''id'' = Some (JStr ''mws_settings'') \<Longrightarrow> truthy s"
    by (cases s) simp_all
  with s' i show ?thesis
    by (auto simp: is_mws_settings_def)
qed

lemma service_with_ids_keeps:
  assumes "service_with_ids fresh i (JObj m) = Inr s'"
    and "k \<noteq> ''id''" and "k \<noteq> ''fields''"
  shows "js_prop s' k = map_of m k"
proof -
  from service_with_ids_shape [OF assms(1)] obtain kvs where
    s': "s' = JObj kvs" and
    o: "\<forall>k. k \<noteq> ''id'' \<and> k \<noteq> ''fields'' \<longrightarrow> map_of kvs k = map_of (spread (JObj m)) k"
    by blast
  from o assms(2,3) have "map_of kvs k = map_of m k"
    by simp
  with s' show ?thesis by simp
qed

lemma map_indexed_all2:
  "map_indexed f i xs = Inr ys \<Longrightarrow> list_all2 (\<lambda>x y. \<exists>j. f j x = Inr y) xs ys"
proof (induction xs arbitrary: i ys)
  case Nil
  then show ?case by simp
next
  case (Cons x xs)
  then show ?case
    by (auto split: sum.splits)
qed

lemma find_all2:
  assumes "list_all2 R xs ys" and "\<And>x y. R x y \<Longrightarrow> Q y = Q x"
  shows "case find Q xs of
           None \<Rightarrow> find Q ys = None
         | Some m \<Rightarrow> (\<exists>m'. find Q ys = Some m' \<and> R m m')"
  using assms(1)
proof (induction rule: list_all2_induct)
  case Nil
  then show ?case by simp
next
  case (Cons x xs y ys)
  have q: "Q y = Q x"
    using Cons.hyps(1) assms(2) by blast
  show ?case
  proof (cases "Q x")
    case True
    with q Cons.hyps(1) show ?thesis by simp
  next
    case False
    with q Cons.IH show ?thesis by (simp split: option.splits)
  qed
qed

lemma find_append_last:
  assumes "list_all (\<lambda>s. \<not> Q s) us" and "Q m"
  shows "find Q (us @ [m]) = Some m"
  using assms by (induction us) auto

lemma filter_all2:
  assumes "list_all2 R xs ys" and "\<And>x y. R x y \<Longrightarrow> Q y = Q x"
  shows "list_all2 R (filter Q xs) (filter Q ys)"
  using assms(1)
proof (induction rule: list_all2_induct)
  case Nil
  then show ?case by simp
next
  case (Cons x xs y ys)
  have "Q y = Q x"
    using Cons.hyps(1) assms(2) by blast
  with Cons show ?case
    by simp
qed

lemma map_of_foldl_update:
  "map_of (foldl (\<lambda>r (k, v). AList.update k v r) row ch) k =
     (case map_of (rev ch) k of Some v \<Rightarrow> Some v | None \<Rightarrow> map_of row k)"
proof (induction ch arbitrary: row)
  case Nil
  then show ?case by simp
next
  case (Cons a ch)
  obtain k' v' where a: "a = (k', v')" by (cases a)
  show ?case
    by (simp add: Cons.IH a AList.update_conv' map_add_def split: option.splits)
qed

lemma has_id_foldl_update:
  assumes "''id'' \<notin> fst ` set ch"
  shows "has_id i (foldl (\<lambda>r (k, v). AList.update k v r) row ch) = has_id i row"
proof -
  have "map_of (rev ch) ''id'' = None"
    using assms by (simp add: map_of_eq_None_iff)
  then show ?thesis
    by (simp add: has_id_def map_of_foldl_update)
qed

lemma filter_update_rows:
  assumes "''id'' \<notin> fst ` set ch"
  shows "filter (has_id i) (update_rows i ch table) =
         map (\<lambda>row. foldl (\<lambda>r (k, v). AList.update k v r) row ch) (filter (has_id i) table)"
  using assms
  by (induction table) (simp_all add: update_rows_def has_id_foldl_update)

lemma update_single_success:
  assumes "update_single i ch table = (Response (Some row) e, table')"
    and "''id'' \<notin> fst ` set ch"
  shows "\<exists>old. filter (has_id i) table = [old] \<and> filter (has_id i) table' = [row] \<and>
           row = foldl (\<lambda>r (k, v). AList.update k v r) old ch"
proof -
  from assms(1) have f: "filter (has_id i) (update_rows i ch table) = [row]"
    and t: "table' = update_rows i ch table"
    by (auto simp: update_single_def split: list.splits)
  from f filter_update_rows [OF assms(2), of i table]
  obtain old where "filter (has_id i) table = [old]"
    and "row = foldl (\<lambda>r (k, v). AList.update k v r) old ch"
    by (auto simp: map_eq_Cons_conv)
  with f t show ?thesis by simp
qed

lemma update_single_shape:
  "update_single i ch table = (Response d e, table') \<Longrightarrow> (d = None) = (e \<noteq> None)"
  by (auto simp: update_single_def split: list.splits)

lemma updateClient_success:
  assumes "updateClient P fresh table cid u = Inr (c, table')"
  obtains (other) row where
      "only_other_fields u"
      "update_single cid (other_updates u) table = (Response (Some row) None, table')"
      "c = with_leads_and_spends (unpackMwsSettings P (JObj row)) (JArr []) (JArr [])"
  | (services) cur ys row where
      "\<not> only_other_fields u"
      "filter (has_id cid) table = [cur]"
      "map_indexed (service_with_ids fresh) 0
         (merged_services P u (map_of cur ''services'')) = Inr ys"
      "update_single cid (other_updates u @ [(''services'', JArr ys)]) table =
         (Response (Some row) None, table')"
      "c = with_leads_and_spends (unpackMwsSettings P (JObj row)) (JArr []) (JArr [])"
proof (cases "only_other_fields u")
  case True
  with assms obtain row where
    "update_single cid (other_updates u) table = (Response (Some row) None, table')"
    "c = with_leads_and_spends (unpackMwsSettings P (JObj row)) (JArr []) (JArr [])"
    by (auto simp: updateClient_def only_other_fields_def Let_def
        split: prod.splits response.splits option.splits dest: update_single_shape)
  with True show ?thesis by (rule other)
next
  case False
  with assms obtain cur where cur: "filter (has_id cid) table = [cur]"
    by (auto simp: updateClient_def only_other_fields_def Let_def single_def split: list.splits)
  from assms False cur obtain ys where
    ys: "map_indexed (service_with_ids fresh) 0
            (merged_services P u (map_of cur ''services'')) = Inr ys"
    by (auto simp: updateClient_def only_other_fields_def Let_def single_def split: sum.splits)
  from assms False cur ys obtain row where
    "update_single cid (other_updates u @ [(''services'', JArr ys)]) table =
         (Response (Some row) None, table')"
    "c = with_leads_and_spends (unpackMwsSettings P (JObj row)) (JArr []) (JArr [])"
    by (auto simp: updateClient_def only_other_fields_def Let_def single_def
        split: prod.splits response.splits option.splits dest: update_single_shape)
  with False cur ys show ?thesis by (rule services)
qed

lemma is_mws_settings_obj:
  "is_mws_settings x \<Longrightarrow> \<exists>m. x = JObj m \<and> map_of m ''id'' = Some (JStr ''mws_settings'')"
  by (cases x) (simp_all add: is_mws_settings_def)

lemma not_mws_settings_not_is:
  "not_mws_settings x \<Longrightarrow> \<not> is_mws_settings x"
  by (simp add: not_mws_settings_def is_mws_settings_def)

lemma find_is_mws_obj:
  "find is_mws_settings xs = Some x \<Longrightarrow> \<exists>m. x = JObj m \<and> map_of m ''id'' = Some (JStr ''mws_settings'')"
  by (auto simp: find_Some_iff intro: is_mws_settings_obj)

lemma assign_if_defined_obj:
  "assign_if_defined k v (JObj m) =
     JObj (case v of None \<Rightarrow> m | Some x \<Rightarrow> AList.update k (JNum x) m)"
  by (simp add: assign_if_defined_def split: option.splits)

lemma merged_services_shape:
  assumes "\<forall>xs. upd_services u = Some xs \<longrightarrow> list_all (\<lambda>s. \<not> is_mws_settings s) xs"
  shows "\<exists>us m. merged_services P u fetched = us @ [JObj m] \<and>
           list_all (\<lambda>s. \<not> is_mws_settings s) us \<and>
           map_of m ''id'' = Some (JStr ''mws_settings'') \<and>
           map_of m ''mws_fixed_fee'' =
             (case upd_mws_fixed_fee u of
                Some f \<Rightarrow> Some (JNum f)
              | None \<Rightarrow> stored_setting P fetched ''mws_fixed_fee'') \<and>
           map_of m ''mws_profit_percentage'' =
             (case upd_mws_profit_percentage u of
                Some p \<Rightarrow> Some (JNum p)
              | None \<Rightarrow> stored_setting P fetched ''mws_profit_percentage'')"
proof -
  define cur where
    "cur = parse_if_string P (if truthy_val fetched then fetched else Some (JArr []))"
  define stored where
    "stored = (case cur of Some (JArr xs) \<Rightarrow> filter not_mws_settings xs | _ \<Rightarrow> [])"
  define us where
    "us = (case upd_services u of Some xs \<Rightarrow> xs | None \<Rightarrow> stored)"
  define found where
    "found = (case cur of Some (JArr xs) \<Rightarrow> find is_mws_settings xs | _ \<Rightarrow> None)"
  have found_eq: "found = find is_mws_settings (array_or_empty cur)"
    by (simp add: found_def array_or_empty_def split: option.splits json.splits)
  obtain m0 where m0: "(case found of
               None \<Rightarrow> JObj [(''id'', JStr ''mws_settings''), (''name'', JStr ''_mws_settings'')]
             | Some m \<Rightarrow> m) = JObj m0"
    and id0: "map_of m0 ''id'' = Some (JStr ''mws_settings'')"
    and st: "\<And>k. k \<noteq> ''id'' \<Longrightarrow> k \<noteq> ''name'' \<Longrightarrow> map_of m0 k = stored_setting P fetched k"
  proof (cases found)
    case None
    then show ?thesis
      using that [of "[(''id'', JStr ''mws_settings''), (''name'', JStr ''_mws_settings'')]"]
      by (simp add: stored_setting_def found_eq [symmetric] cur_def [symmetric])
  next
    case (Some x)
    then obtain m where "x = JObj m" "map_of m ''id'' = Some (JStr ''mws_settings'')"
      using find_is_mws_obj [of "array_or_empty cur" x] by (auto simp: found_eq)
    with Some show ?thesis
      using that [of m]
      by (simp add: stored_setting_def found_eq [symmetric] cur_def [symmetric])
  qed
  have "list_all (\<lambda>s. \<not> is_mws_settings s) stored"
    by (auto simp: stored_def list_all_iff not_mws_settings_not_is split: option.splits json.splits)
  with assms have us: "list_all (\<lambda>s. \<not> is_mws_settings s) us"
    by (simp add: us_def split: option.splits)
  define m where "m = (case upd_mws_profit_percentage u of
        None \<Rightarrow> (case upd_mws_fixed_fee u of None \<Rightarrow> m0
                  | Some x \<Rightarrow> AList.update ''mws_fixed_fee'' (JNum x) m0)
      | Some y \<Rightarrow> AList.update ''mws_profit_percentage'' (JNum y)
                  (case upd_mws_fixed_fee u of None \<Rightarrow> m0
                   | Some x \<Rightarrow> AList.update ''mws_fixed_fee'' (JNum x) m0))"
  have "merged_services P u fetched = us @ [JObj m]"
    by (simp add: merged_services_def Let_def cur_def [symmetric] found_def [symmetric]
        m0 assign_if_defined_obj m_def us_def stored_def cong: option.case_cong)
  moreover have "map_of m ''id'' = Some (JStr ''mws_settings'')"
    by (simp add: m_def id0 AList.update_conv' split: option.splits)
  moreover have "map_of m ''mws_fixed_fee'' =
             (case upd_mws_fixed_fee u of
                Some f \<Rightarrow> Some (JNum f)
              | None \<Rightarrow> stored_setting P fetched ''mws_fixed_fee'')"
    by (simp add: m_def st AList.update_conv' split: option.splits)
  moreover have "map_of m ''mws_profit_percentage'' =
             (case upd_mws_profit_percentage u of
                Some p \<Rightarrow> Some (JNum p)
              | None \<Rightarrow> stored_setting P fetched ''mws_profit_percentage'')"
    by (simp add: m_def st AList.update_conv' split: option.splits)
  ultimately show ?thesis
    using us by blast
qed

lemma mapped_settings:
  assumes "map_indexed (service_with_ids fresh) 0 (us @ [JObj m]) = Inr ys"
    and "list_all (\<lambda>s. \<not> is_mws_settings s) us"
    and "map_of m ''id'' = Some (JStr ''mws_settings'')"
  shows "\<exists>m'. find is_mws_settings ys = Some m' \<and>
           (\<forall>k. k \<noteq> ''id'' \<and> k \<noteq> ''fields'' \<longrightarrow> js_prop m' k = map_of m k)"
proof -
  let ?R = "\<lambda>x y. \<exists>j. service_with_ids fresh j x = Inr y"
  have all2: "list_all2 ?R (us @ [JObj m]) ys"
    by (rule map_indexed_all2 [OF assms(1)])
  have "is_mws_settings (JObj m)"
    by (simp add: is_mws_settings_def assms(3))
  then have "find is_mws_settings (us @ [JObj m]) = Some (JObj m)"
    by (rule find_append_last [OF assms(2)])
  moreover have "\<And>x y. ?R x y \<Longrightarrow> is_mws_settings y = is_mws_settings x"
    using service_with_ids_is_mws by blast
  ultimately obtain m' where f: "find is_mws_settings ys = Some m'" and r: "?R (JObj m) m'"
    using find_all2 [OF all2, of is_mws_settings] by (auto split: option.splits)
  from r have "\<forall>k. k \<noteq> ''id'' \<and> k \<noteq> ''fields'' \<longrightarrow> js_prop m' k = map_of m k"
    using service_with_ids_keeps by blast
  with f show ?thesis by blast
qed

lemma unpack_setting:
  assumes "k = ''mws_fixed_fee'' \<or> k = ''mws_profit_percentage''"
  shows "js_prop (unpackMwsSettings P (JObj row)) k =
           (case find is_mws_settings
                   (array_or_empty (parse_if_string P (map_of row ''services''))) of
              None \<Rightarrow> map_of row k
            | Some m \<Rightarrow> js_prop m k)"
  using assms unpack_fixed_fee [of "JObj row" P] unpack_profit_percentage [of "JObj row" P]
  by (auto split: option.splits)

lemma array_or_empty_fetched:
  assumes "P [] = None"
  shows "array_or_empty (parse_if_string P (if truthy_val fetched then fetched else Some (JArr []))) =
         array_or_empty (parse_if_string P fetched)"
proof (cases "truthy_val fetched")
  case True
  then show ?thesis by simp
next
  case False
  then show ?thesis
    using assms
    by (auto simp: truthy_val_def parse_if_string_def array_or_empty_def
        split: option.splits json.splits)
qed

lemma unpack_stored_setting:
  assumes "k = ''mws_fixed_fee'' \<or> k = ''mws_profit_percentage''"
    and "P [] = None" and "map_of old k = None"
  shows "js_prop (unpackMwsSettings P (JObj old)) k = stored_setting P (map_of old ''services'') k"
  by (simp add: unpack_setting [OF assms(1)] stored_setting_def
      array_or_empty_fetched [of P, OF assms(2)] assms(3) split: option.splits)

lemma other_updates_keys:
  "fst ` set (other_updates u) \<subseteq> {''name'', ''quote_webhook_url''}"
  by (auto simp: other_updates_def split: option.splits)

lemma map_of_rev_other_updates:
  assumes "k \<noteq> ''name''" and "k \<noteq> ''quote_webhook_url''"
  shows "map_of (rev (other_updates u)) k = None"
  using assms other_updates_keys [of u]
  by (auto simp: map_of_eq_None_iff)

lemma client_setting:
  assumes "k = ''mws_fixed_fee'' \<or> k = ''mws_profit_percentage''"
  shows "js_prop (with_leads_and_spends (unpackMwsSettings P (JObj row)) l a) k =
           js_prop (unpackMwsSettings P (JObj row)) k"
  using assms by (auto simp: with_leads_and_spends_def map_of_set_prop spread_unpack)

lemma updateClient_setting:
  assumes ok: "updateClient P fresh table cid u = Inr (c, table')"
    and user: "\<forall>xs. upd_services u = Some xs \<longrightarrow> list_all (\<lambda>s. \<not> is_mws_settings s) xs"
    and k: "k = ''mws_fixed_fee'' \<or> k = ''mws_profit_percentage''"
  shows "\<exists>old row. filter (has_id cid) table = [old] \<and> filter (has_id cid) table' = [row] \<and>
           js_prop c k = js_prop (unpackMwsSettings P (JObj row)) k \<and>
           js_prop (unpackMwsSettings P (JObj row)) k =
             (case (if k = ''mws_fixed_fee'' then upd_mws_fixed_fee u
                    else upd_mws_profit_percentage u) of
                Some v \<Rightarrow> Some (JNum v)
              | None \<Rightarrow>
                  if only_other_fields u
                  then js_prop (unpackMwsSettings P (JObj old)) k
                  else stored_setting P (map_of old ''services'') k)"
  using ok
proof (cases rule: updateClient_success)
  case (other row)
  have "''id'' \<notin> fst ` set (other_updates u)"
    using other_updates_keys [of u] by auto
  from update_single_success [OF other(2) this] obtain old where
    old: "filter (has_id cid) table = [old]" and
    row: "filter (has_id cid) table' = [row]" and
    row_eq: "row = foldl (\<lambda>r (k, v). AList.update k v r) old (other_updates u)"
    by blast
  have ck: "js_prop c k = js_prop (unpackMwsSettings P (JObj row)) k"
    unfolding other(3) by (rule client_setting [OF k])
  have "map_of row ''services'' = map_of old ''services''" and "map_of row k = map_of old k"
    using k by (auto simp: row_eq map_of_foldl_update map_of_rev_other_updates)
  then have "js_prop (unpackMwsSettings P (JObj row)) k = js_prop (unpackMwsSettings P (JObj old)) k"
    by (simp add: unpack_setting [OF k] split: option.splits)
  moreover from other(1) have "(if k = ''mws_fixed_fee'' then upd_mws_fixed_fee u
                    else upd_mws_profit_percentage u) = None"
    by (simp add: only_other_fields_def)
  ultimately have
    "js_prop (unpackMwsSettings P (JObj row)) k =
       (case (if k = ''mws_fixed_fee'' then upd_mws_fixed_fee u
              else upd_mws_profit_percentage u) of
          Some v \<Rightarrow> Some (JNum v)
        | None \<Rightarrow>
            if only_other_fields u
            then js_prop (unpackMwsSettings P (JObj old)) k
            else stored_setting P (map_of old ''services'') k)"
    using other(1) by simp
  with old row ck show ?thesis
    by blast
next
  case (services cur ys row)
  have "''id'' \<notin> fst ` set (other_updates u @ [(''services'', JArr ys)])"
    using other_updates_keys [of u] by auto
  from update_single_success [OF services(4) this] obtain old where
    old: "filter (has_id cid) table = [old]" and
    row: "filter (has_id cid) table' = [row]" and
    row_eq: "row = foldl (\<lambda>r (k, v). AList.update k v r) old
                     (other_updates u @ [(''services'', JArr ys)])"
    by blast
  have ck: "js_prop c k = js_prop (unpackMwsSettings P (JObj row)) k"
    unfolding services(5) by (rule client_setting [OF k])
  from services(2) old have [simp]: "cur = old" by simp
  from merged_services_shape [OF user, of P "map_of old ''services''"] obtain us m where
    merged: "merged_services P u (map_of old ''services'') = us @ [JObj m]" and
    us: "list_all (\<lambda>s. \<not> is_mws_settings s) us" and
    mid: "map_of m ''id'' = Some (JStr ''mws_settings'')" and
    fee: "map_of m ''mws_fixed_fee'' =
           (case upd_mws_fixed_fee u of
              Some f \<Rightarrow> Some (JNum f)
            | None \<Rightarrow> stored_setting P (map_of old ''services'') ''mws_fixed_fee'')" and
    pct: "map_of m ''mws_profit_percentage'' =
           (case upd_mws_profit_percentage u of
              Some p \<Rightarrow> Some (JNum p)
            | None \<Rightarrow> stored_setting P (map_of old ''services'') ''mws_profit_percentage'')"
    by blast
  from services(3) merged have "map_indexed (service_with_ids fresh) 0 (us @ [JObj m]) = Inr ys"
    by simp
  from mapped_settings [OF this us mid] obtain m' where
    found: "find is_mws_settings ys = Some m'" and
    keep: "\<forall>j. j \<noteq> ''id'' \<and> j \<noteq> ''fields'' \<longrightarrow> js_prop m' j = map_of m j"
    by blast
  have "map_of row ''services'' = Some (JArr ys)"
    by (simp add: row_eq AList.update_conv')
  then have "js_prop (unpackMwsSettings P (JObj row)) k = js_prop m' k"
    by (simp add: unpack_setting [OF k] parse_if_string_def array_or_empty_def found)
  also have "\<dots> = map_of m k"
  proof -
    from k have "k \<noteq> ''id'' \<and> k \<noteq> ''fields''"
      by auto
    with keep [rule_format, of k] show ?thesis .
  qed
  finally have mk: "js_prop (unpackMwsSettings P (JObj row)) k = map_of m k" .
  have mval: "map_of m k =
          (case (if k = ''mws_fixed_fee'' then upd_mws_fixed_fee u
                 else upd_mws_profit_percentage u) of
             Some v \<Rightarrow> Some (JNum v)
           | None \<Rightarrow> stored_setting P (map_of old ''services'') k)"
  proof (cases "k = ''mws_fixed_fee''")
    case True
    then show ?thesis by (simp add: fee split: option.splits)
  next
    case False
    with k have "k = ''mws_profit_percentage''" by simp
    then show ?thesis by (simp add: pct split: option.splits)
  qed
  from services(1) have nf: "only_other_fields u = False"
    by simp
  have
    "js_prop (unpackMwsSettings P (JObj row)) k =
       (case (if k = ''mws_fixed_fee'' then upd_mws_fixed_fee u
              else upd_mws_profit_percentage u) of
          Some v \<Rightarrow> Some (JNum v)
        | None \<Rightarrow>
            if only_other_fields u
            then js_prop (unpackMwsSettings P (JObj old)) k
            else stored_setting P (map_of old ''services'') k)"
    unfolding nf if_False mk by (rule mval)
  with old row ck show ?thesis
    by blast
qed

text \<open>
  C3. Suppose \<open>updateClient\<close> succeeds and the services list of the update, if there is one,
  has no entry with the reserved id \<open>mws_settings\<close>. Then exactly one stored row has the
  client's id before and after, the returned client carries the commission fields that
  \<open>unpackMwsSettings\<close> reads from the stored row, and for each commission parameter: if the
  update gives a value, unpacking the stored row gives that value back; if the update
  does not give it, unpacking the stored row gives what unpacking the row gave before the
  update (for a table without commission columns of its own, and a parser that rejects the
  empty text, as \<open>JSON.parse\<close> does).
\<close>

theorem updateClient_round_trip:
  assumes ok: "updateClient P fresh table cid u = Inr (c, table')"
    and user: "\<forall>xs. upd_services u = Some xs \<longrightarrow> list_all (\<lambda>s. \<not> is_mws_settings s) xs"
  shows "\<exists>old row.
     filter (has_id cid) table = [old] \<and> filter (has_id cid) table' = [row] \<and>
     js_prop c ''mws_fixed_fee'' = js_prop (unpackMwsSettings P (JObj row)) ''mws_fixed_fee'' \<and>
     js_prop c ''mws_profit_percentage'' =
       js_prop (unpackMwsSettings P (JObj row)) ''mws_profit_percentage'' \<and>
     (\<forall>f. upd_mws_fixed_fee u = Some f \<longrightarrow>
          js_prop (unpackMwsSettings P (JObj row)) ''mws_fixed_fee'' = Some (JNum f)) \<and>
     (\<forall>p. upd_mws_profit_percentage u = Some p \<longrightarrow>
          js_prop (unpackMwsSettings P (JObj row)) ''mws_profit_percentage'' = Some (JNum p)) \<and>
     (P [] = None \<and> map_of old ''mws_fixed_fee'' = None \<and>
      map_of old ''mws_profit_percentage'' = None \<longrightarrow>
        (upd_mws_fixed_fee u = None \<longrightarrow>
           js_prop (unpackMwsSettings P (JObj row)) ''mws_fixed_fee'' =
           js_prop (unpackMwsSettings P (JObj old)) ''mws_fixed_fee'') \<and>
        (upd_mws_profit_percentage u = None \<longrightarrow>
           js_prop (unpackMwsSettings P (JObj row)) ''mws_profit_percentage'' =
           js_prop (unpackMwsSettings P (JObj old)) ''mws_profit_percentage''))"
proof -
  from updateClient_setting [OF ok user, of "''mws_fixed_fee''"] obtain old row where
    old: "filter (has_id cid) table = [old]" and
    row: "filter (has_id cid) table' = [row]" and
    cf: "js_prop c ''mws_fixed_fee'' = js_prop (unpackMwsSettings P (JObj row)) ''mws_fixed_fee''" and
    fee: "js_prop (unpackMwsSettings P (JObj row)) ''mws_fixed_fee'' =
            (case upd_mws_fixed_fee u of
               Some v \<Rightarrow> Some (JNum v)
             | None \<Rightarrow>
                 if only_other_fields u
                 then js_prop (unpackMwsSettings P (JObj old)) ''mws_fixed_fee''
                 else stored_setting P (map_of old ''services'') ''mws_fixed_fee'')"
    by auto
  from updateClient_setting [OF ok user, of "''mws_profit_percentage''"] old row have
    cp: "js_prop c ''mws_profit_percentage'' =
           js_prop (unpackMwsSettings P (JObj row)) ''mws_profit_percentage''" and
    pct: "js_prop (unpackMwsSettings P (JObj row)) ''mws_profit_percentage'' =
            (case upd_mws_profit_percentage u of
               Some v \<Rightarrow> Some (JNum v)
             | None \<Rightarrow>
                 if only_other_fields u
                 then js_prop (unpackMwsSettings P (JObj old)) ''mws_profit_percentage''
                 else stored_setting P (map_of old ''services'') ''mws_profit_percentage'')"
    by auto
  have given_fee: "js_prop (unpackMwsSettings P (JObj row)) ''mws_fixed_fee'' = Some (JNum f)"
    if "upd_mws_fixed_fee u = Some f" for f
    using that fee by simp
  have given_pct: "js_prop (unpackMwsSettings P (JObj row)) ''mws_profit_percentage'' = Some (JNum p)"
    if "upd_mws_profit_percentage u = Some p" for p
    using that pct by simp
  have kept_fee: "js_prop (unpackMwsSettings P (JObj row)) ''mws_fixed_fee'' =
           js_prop (unpackMwsSettings P (JObj old)) ''mws_fixed_fee''"
    if "P [] = None" "map_of old ''mws_fixed_fee'' = None" "upd_mws_fixed_fee u = None"
    using that fee unpack_stored_setting [of "''mws_fixed_fee''" P old] by simp
  have kept_pct: "js_prop (unpackMwsSettings P (JObj row)) ''mws_profit_percentage'' =
           js_prop (unpackMwsSettings P (JObj old)) ''mws_profit_percentage''"
    if "P [] = None" "map_of old ''mws_profit_percentage'' = None"
      "upd_mws_profit_percentage u = None"
    using that pct unpack_stored_setting [of "''mws_profit_percentage''" P old] by simp
  show ?thesis
  proof (rule exI [of _ old], rule exI [of _ row], intro conjI allI impI)
    show "filter (has_id cid) table = [old]" by (rule old)
    show "filter (has_id cid) table' = [row]" by (rule row)
    show "js_prop c ''mws_fixed_fee'' = js_prop (unpackMwsSettings P (JObj row)) ''mws_fixed_fee''"
      by (rule cf)
    show "js_prop c ''mws_profit_percentage'' =
            js_prop (unpackMwsSettings P (JObj row)) ''mws_profit_percentage''"
      by (rule cp)
    show "js_prop (unpackMwsSettings P (JObj row)) ''mws_fixed_fee'' = Some (JNum f)"
      if "upd_mws_fixed_fee u = Some f" for f
      using that by (rule given_fee)
    show "js_prop (unpackMwsSettings P (JObj row)) ''mws_profit_percentage'' = Some (JNum p)"
      if "upd_mws_profit_percentage u = Some p" for p
      using that by (rule given_pct)
    show "js_prop (unpackMwsSettings P (JObj row)) ''mws_fixed_fee'' =
           js_prop (unpackMwsSettings P (JObj old)) ''mws_fixed_fee''"
      if "P [] = None \<and> map_of old ''mws_fixed_fee'' = None \<and>
          map_of old ''mws_profit_percentage'' = None" "upd_mws_fixed_fee u = None"
      using that by (intro kept_fee) simp_all
    show "js_prop (unpackMwsSettings P (JObj row)) ''mws_profit_percentage'' =
           js_prop (unpackMwsSettings P (JObj old)) ''mws_profit_percentage''"
      if "P [] = None \<and> map_of old ''mws_fixed_fee'' = None \<and>
          map_of old ''mws_profit_percentage'' = None" "upd_mws_profit_percentage u = None"
      using that by (intro kept_pct) simp_all
  qed
qed

lemma example_fee_update:
  "updateClient example_parse example_fresh [example_row, broken_row] ''c1'' fee_update =
     Inr (JObj
       [(''id'', JStr ''c1''), (''user_id'', JStr ''u1''), (''name'', JStr ''Acme''),
        (''services'', JArr [JObj [(''id'', JStr ''service_1''), (''name'', JStr ''Roof'')]]),
        (''mws_fixed_fee'', JNum 150), (''mws_profit_percentage'', JNum 25),
        (''leads'', JArr []), (''adSpends'', JArr [])],
      [[(''id'', JStr ''c1''), (''user_id'', JStr ''u1''), (''name'', JStr ''Acme''),
        (''services'',
         JArr
          [JObj [(''id'', JStr ''service_1''), (''name'', JStr ''Roof'')],
           JObj
            [(''id'', JStr ''mws_settings''), (''name'', JStr ''_mws_settings''),
             (''mws_fixed_fee'', JNum 150), (''mws_profit_percentage'', JNum 25)]])],
       broken_row])"
  by code_simp

lemma example_services_update:
  "updateClient example_parse example_fresh [example_row, broken_row] ''c1'' services_update =
     Inr (JObj
       [(''id'', JStr ''c1''), (''user_id'', JStr ''u1''), (''name'', JStr ''Acme 2''),
        (''services'',
         JArr [JObj [(''id'', JStr ''service_1700000000000_0.5''), (''name'', JStr ''Windows'')]]),
        (''mws_fixed_fee'', JNum 100), (''mws_profit_percentage'', JNum 20),
        (''leads'', JArr []), (''adSpends'', JArr [])],
      [[(''id'', JStr ''c1''), (''user_id'', JStr ''u1''), (''name'', JStr ''Acme 2''),
        (''services'',
         JArr
          [JObj [(''id'', JStr ''service_1700000000000_0.5''), (''name'', JStr ''Windows'')],
           JObj
            [(''id'', JStr ''mws_settings''), (''name'', JStr ''_mws_settings''),
             (''mws_fixed_fee'', JNum 100), (''mws_profit_percentage'', JNum 20)]])],
       broken_row])"
  by code_simp

lemma example_table_row:
  "filter (has_id ''c1'') [example_row, broken_row] = [example_row]"
  by (simp add: has_id_def example_row_def broken_row_def)

theorem updateClient_round_trip_witness:
  "(\<exists>c t row.
      updateClient example_parse example_fresh [example_row, broken_row] ''c1'' fee_update =
        Inr (c, t) \<and>
      filter (has_id ''c1'') t = [row] \<and>
      js_prop c ''mws_fixed_fee'' = Some (JNum 150) \<and>
      js_prop (unpackMwsSettings example_parse (JObj row)) ''mws_fixed_fee'' = Some (JNum 150) \<and>
      js_prop (unpackMwsSettings example_parse (JObj row)) ''mws_profit_percentage'' =
        Some (JNum 25)) \<and>
   (\<exists>c t row.
      updateClient example_parse example_fresh [example_row, broken_row] ''c1'' services_update =
        Inr (c, t) \<and>
      filter (has_id ''c1'') t = [row] \<and>
      js_prop (unpackMwsSettings example_parse (JObj row)) ''mws_fixed_fee'' =
        js_prop (unpackMwsSettings example_parse (JObj example_row)) ''mws_fixed_fee'' \<and>
      js_prop (unpackMwsSettings example_parse (JObj row)) ''mws_profit_percentage'' =
        js_prop (unpackMwsSettings example_parse (JObj example_row)) ''mws_profit_percentage'')"
proof (rule conjI)
  have u: "\<forall>xs. upd_services fee_update = Some xs \<longrightarrow> list_all (\<lambda>s. \<not> is_mws_settings s) xs"
    by (simp add: fee_update_def)
  have g: "upd_mws_fixed_fee fee_update = Some 150" "upd_mws_profit_percentage fee_update = Some 25"
    by (simp_all add: fee_update_def)
  from updateClient_round_trip [OF example_fee_update u] g
  show "\<exists>c t row.
      updateClient example_parse example_fresh [example_row, broken_row] ''c1'' fee_update =
        Inr (c, t) \<and>
      filter (has_id ''c1'') t = [row] \<and>
      js_prop c ''mws_fixed_fee'' = Some (JNum 150) \<and>
      js_prop (unpackMwsSettings example_parse (JObj row)) ''mws_fixed_fee'' = Some (JNum 150) \<and>
      js_prop (unpackMwsSettings example_parse (JObj row)) ''mws_profit_percentage'' =
        Some (JNum 25)"
    unfolding example_fee_update by fastforce
next
  have u: "\<forall>xs. upd_services services_update = Some xs \<longrightarrow>
             list_all (\<lambda>s. \<not> is_mws_settings s) xs"
    by (simp add: services_update_def is_mws_settings_def)
  have g: "upd_mws_fixed_fee services_update = None"
    "upd_mws_profit_percentage services_update = None"
    by (simp_all add: services_update_def)
  have e: "example_parse [] = None" "map_of example_row ''mws_fixed_fee'' = None"
    "map_of example_row ''mws_profit_percentage'' = None"
    by (simp_all add: example_parse_def example_row_def)
  from updateClient_round_trip [OF example_services_update u] g e
  show "\<exists>c t row.
      updateClient example_parse example_fresh [example_row, broken_row] ''c1'' services_update =
        Inr (c, t) \<and>
      filter (has_id ''c1'') t = [row] \<and>
      js_prop (unpackMwsSettings example_parse (JObj row)) ''mws_fixed_fee'' =
        js_prop (unpackMwsSettings example_parse (JObj example_row)) ''mws_fixed_fee'' \<and>
      js_prop (unpackMwsSettings example_parse (JObj row)) ''mws_profit_percentage'' =
        js_prop (unpackMwsSettings example_parse (JObj example_row)) ''mws_profit_percentage''"
    unfolding example_services_update example_table_row by fastforce
qed

section \<open>The settings entry is never shown\<close>

text \<open>
  C4. No client object returned by \<open>getClients\<close>, \<open>getClientByUserId\<close> or \<open>updateClient\<close> has
  a service with id \<open>mws_settings\<close> in its services list.
\<close>

theorem client_operations_hide_mws_settings:
  "(getClients P b = Inr cs \<longrightarrow> list_all (\<lambda>c. \<not> exposes_mws_settings c) cs) \<and>
   (getClientByUserId P b uid = Inr c \<longrightarrow> \<not> exposes_mws_settings c) \<and>
   (updateClient P fresh table cid u = Inr (c', table') \<longrightarrow> \<not> exposes_mws_settings c')"
proof (intro conjI impI)
  assume "getClients P b = Inr cs"
  then obtain rows where "Promise_all (map (client_with_data P b) rows) = Inr cs"
    by (auto simp: getClients_def split: awaited.splits option.splits)
  then have built: "map (client_with_data P b) rows = map Inr cs"
    by (rule Promise_all_Inr)
  show "list_all (\<lambda>c. \<not> exposes_mws_settings c) cs"
    unfolding list_all_iff
  proof
    fix c
    assume "c \<in> set cs"
    then have "Inr c \<in> set (map (client_with_data P b) rows)"
      unfolding built by simp
    then obtain row where "client_with_data P b row = Inr c"
      by auto
    from client_with_data_Inr [OF this] show "\<not> exposes_mws_settings c"
      by (auto simp: not_exposed_after_unpack)
  qed
next
  assume "getClientByUserId P b uid = Inr c"
  then have "c = JNull \<or> (\<exists>row. client_with_data P b row = Inr c)"
    by (auto simp: getClientByUserId_def split: awaited.splits option.splits list.splits)
  then show "\<not> exposes_mws_settings c"
  proof
    assume "c = JNull"
    then show ?thesis
      by (simp add: exposes_mws_settings_def array_or_empty_def)
  next
    assume "\<exists>row. client_with_data P b row = Inr c"
    then obtain row where "client_with_data P b row = Inr c"
      by blast
    from client_with_data_Inr [OF this] show ?thesis
      by (auto simp: not_exposed_after_unpack)
  qed
next
  assume "updateClient P fresh table cid u = Inr (c', table')"
  then show "\<not> exposes_mws_settings c'"
    by (cases rule: updateClient_success) (simp_all add: not_exposed_after_unpack)
qed

lemma example_getClients:
  "getClients example_parse example_backend =
     Inr [JObj
       [(''id'', JStr ''c1''), (''user_id'', JStr ''u1''), (''name'', JStr ''Acme''),
        (''services'', JArr [JObj [(''id'', JStr ''service_1''), (''name'', JStr ''Roof'')]]),
        (''mws_fixed_fee'', JNum 100), (''mws_profit_percentage'', JNum 20),
        (''leads'', JArr []), (''adSpends'', JArr [])],
      JObj
       [(''id'', JStr ''c2''), (''user_id'', JStr ''u2''), (''services'', JArr []),
        (''leads'', JArr []), (''adSpends'', JArr [])]]"
  by code_simp

theorem client_operations_hide_mws_settings_witness:
  "(\<exists>cs. getClients example_parse example_backend = Inr cs \<and> length cs = 2 \<and>
         list_all (\<lambda>c. \<not> exposes_mws_settings c) cs) \<and>
   (\<exists>c. getClientByUserId example_parse example_backend ''u1'' = Inr c \<and> c \<noteq> JNull \<and>
        \<not> exposes_mws_settings c) \<and>
   (\<exists>c t. updateClient example_parse example_fresh [example_row, broken_row] ''c1'' fee_update =
            Inr (c, t) \<and> \<not> exposes_mws_settings c)"
proof -
  obtain cs where gc: "getClients example_parse example_backend = Inr cs" and "length cs = 2"
    by (simp add: example_getClients)
  moreover have "list_all (\<lambda>c. \<not> exposes_mws_settings c) cs"
    using gc client_operations_hide_mws_settings
      [where P = example_parse and b = example_backend and cs = cs]
    by simp
  moreover obtain c where
    u1: "getClientByUserId example_parse example_backend ''u1'' = Inr c" and "c \<noteq> JNull"
    by (simp add: getClientByUserId_def example_backend_def client_with_data_def
        with_leads_and_spends_def Let_def example_row_def)
  moreover have "\<not> exposes_mws_settings c"
    using u1 client_operations_hide_mws_settings
      [where P = example_parse and b = example_backend and uid = "''u1''" and c = c]
    by simp
  moreover obtain c' t where
    up: "updateClient example_parse example_fresh [example_row, broken_row] ''c1'' fee_update =
           Inr (c', t)"
    by (simp add: example_fee_update)
  moreover have "\<not> exposes_mws_settings c'"
    using up client_operations_hide_mws_settings
      [where P = example_parse and fresh = example_fresh
         and table = "[example_row, broken_row]" and cid = "''c1''" and u = fee_update
         and c' = c' and table' = t]
    by simp
  ultimately show ?thesis
    by blast
qed

section \<open>Properties of addLead\<close>

lemma fst_addLead:
  "fst (addLead newDate toISOString String b opts) =
     (case leadToInsert newDate toISOString opts of
        Inl e \<Rightarrow> Inl e
      | Inr row \<Rightarrow>
          (case insert_lead b row of
             Response d (Some msg) \<Rightarrow> Inl (Error msg)
           | Response newLead None \<Rightarrow>
               Inr (case newLead of None \<Rightarrow> JNull | Some lead \<Rightarrow> JObj lead)))"
  by (simp add: addLead_def split: sum.splits response.splits option.splits)

text \<open>
  C7. What \<open>addLead\<close> returns or throws depends only on the row it builds and on the answer
  to the insert of that row: two backends that answer the insert alike give the same
  outcome, whatever the notification step does. Once the insert has answered with the new
  lead, \<open>addLead\<close> returns that lead; an error of the notification step is at most written
  to the console.
\<close>

theorem addLead_independent_of_notifications:
  "(insert_lead b' = insert_lead b \<longrightarrow>
      fst (addLead newDate toISOString String b' opts) =
      fst (addLead newDate toISOString String b opts)) \<and>
   (leadToInsert newDate toISOString opts = Inr row \<and>
    insert_lead b row = Response (Some lead) None \<longrightarrow>
      fst (addLead newDate toISOString String b opts) = Inr (JObj lead))"
  by (auto simp: fst_addLead split: sum.splits)

theorem addLead_independent_of_notifications_witness:
  "fst (addLead example_newDate example_toISOString example_String failing_insert_backend
          example_options) = Inr (JObj example_lead) \<and>
   fst (addLead example_newDate example_toISOString example_String refusing_insert_backend
          example_options) = Inr (JObj example_lead) \<and>
   snd (addLead example_newDate example_toISOString example_String failing_insert_backend
          example_options) = [Error ''network down'']"
proof -
  obtain row where row: "leadToInsert example_newDate example_toISOString example_options = Inr row"
    by (simp add: leadToInsert_def example_options_def)
  have i: "insert_lead failing_insert_backend row = Response (Some example_lead) None"
    "insert_lead refusing_insert_backend row = Response (Some example_lead) None"
    by (simp_all add: failing_insert_backend_def refusing_insert_backend_def)
  have "snd (addLead example_newDate example_toISOString example_String failing_insert_backend
          example_options) = [Error ''network down'']"
    by (simp add: addLead_def row i create_notifications_def failing_insert_backend_def
        example_lead_def)
  with row i
    addLead_independent_of_notifications
      [where b = failing_insert_backend and newDate = example_newDate
         and toISOString = example_toISOString and opts = example_options and row = row
         and lead = example_lead and String = example_String]
    addLead_independent_of_notifications
      [where b = refusing_insert_backend and newDate = example_newDate
         and toISOString = example_toISOString and opts = example_options and row = row
         and lead = example_lead and String = example_String]
  show ?thesis
    by simp
qed

section \<open>Properties of sendQuoteByWebhook\<close>

lemma updateQuoteStatus_cases:
  "updateQuoteStatus env quotes q st = (r, quotes') \<Longrightarrow>
     (r = Inr () \<and> quotes' = update_rows q [(''status'', JStr st)] quotes) \<or>
     ((\<exists>e. r = Inl e) \<and> quotes' = quotes)"
  by (auto simp: updateQuoteStatus_def split: option.splits)

lemma sendQuoteByWebhook_cases:
  assumes "sendQuoteByWebhook env quotes qid = (r, calls, quotes')"
  obtains (no_post) e where "r = Inl e" "calls = []" "quotes' = quotes"
  | (failed) url p e where "fetch env url p = FetchFailed e" "r = Inl e"
      "calls = [WebhookPost url p]" "quotes' = quotes"
  | (refused) url p st body where "fetch env url p = Responded st body" "\<not> response_ok st"
      "r = Inl (Error (webhook_error_message st body))"
      "calls = [WebhookPost url p]" "quotes' = quotes"
  | (accepted) url p st body row where "fetch env url p = Responded st body" "response_ok st"
      "filter (has_id qid) quotes = [row]" "map_of row ''status'' = Some (JStr ''accepted'')"
      "r = Inr ()" "calls = [WebhookPost url p]" "quotes' = quotes"
  | (sent) url p st body row where "fetch env url p = Responded st body" "response_ok st"
      "filter (has_id qid) quotes = [row]" "map_of row ''status'' \<noteq> Some (JStr ''accepted'')"
      "calls = [WebhookPost url p, StatusUpdate qid ''sent'']"
      "updateQuoteStatus env quotes qid ''sent'' = (r, quotes')"
proof (cases "filter (has_id qid) quotes")
  case Nil
  with assms show ?thesis
    by (intro no_post) (auto simp: sendQuoteByWebhook_def single_def)
next
  case (Cons rawQuote rest)
  show ?thesis
  proof (cases rest)
    case (Cons a list)
    with \<open>filter (has_id qid) quotes = rawQuote # rest\<close> assms show ?thesis
      by (intro no_post) (auto simp: sendQuoteByWebhook_def single_def)
  next
    case Nil
    with \<open>filter (has_id qid) quotes = rawQuote # rest\<close>
    have row: "filter (has_id qid) quotes = [rawQuote]" by simp
    show ?thesis
    proof (cases "getLeadById env (map_of rawQuote ''lead_id'')")
      case None
      with assms row show ?thesis
        by (intro no_post) (auto simp: sendQuoteByWebhook_def single_def)
    next
      case (Some lead)
      note lead = Some
      show ?thesis
      proof (cases "webhook_url (client_webhook env (map_of rawQuote ''client_id''))")
        case None
        with assms row lead show ?thesis
          by (intro no_post) (auto simp: sendQuoteByWebhook_def single_def)
      next
        case (Some url)
        note url = Some
        define p where "p = webhook_payload rawQuote lead"
        show ?thesis
        proof (cases "fetch env url p")
          case (FetchFailed e)
          with assms row lead url show ?thesis
            by (intro failed [of url p e])
              (auto simp: sendQuoteByWebhook_def single_def Let_def p_def)
        next
          case (Responded st body)
          note resp = Responded
          show ?thesis
          proof (cases "response_ok st")
            case False
            with assms row lead url resp show ?thesis
              by (intro refused [of url p st body])
                (auto simp: sendQuoteByWebhook_def single_def Let_def p_def)
          next
            case True
            note ok = True
            show ?thesis
            proof (cases "map_of rawQuote ''status'' = Some (JStr ''accepted'')")
              case True
              with assms row lead url resp ok show ?thesis
                by (intro accepted [of url p st body rawQuote])
                  (auto simp: sendQuoteByWebhook_def single_def Let_def p_def)
            next
              case False
              with assms row lead url resp ok show ?thesis
                by (intro sent [of url p st body rawQuote])
                  (auto simp: sendQuoteByWebhook_def single_def Let_def p_def split: prod.splits)
            qed
          qed
        qed
      qed
    qed
  qed
qed

text \<open>
  C6. If the webhook POST that \<open>sendQuoteByWebhook\<close> issued is answered with a status
  outside 200 to 299, the call throws an error whose message holds the status code and
  the response body, no further call is issued and the quotes table is unchanged. A status
  update is issued only to set the quote to \<open>sent\<close>, only after a POST answered with a
  status in 200 to 299, and only for a quote whose status is not \<open>accepted\<close>; the quotes
  table changes only through that update.
\<close>

theorem sendQuoteByWebhook_status_update:
  assumes "sendQuoteByWebhook env quotes qid = (r, calls, quotes')"
  shows "(\<forall>url p st body.
            WebhookPost url p \<in> set calls \<and> fetch env url p = Responded st body \<and>
            \<not> response_ok st \<longrightarrow>
              r = Inl (Error (''Il server webhook ha risposto con un errore: '' @ show_nat st @
                              '' - '' @ body)) \<and>
              quotes' = quotes \<and> calls = [WebhookPost url p]) \<and>
         (\<forall>q s. StatusUpdate q s \<in> set calls \<longrightarrow>
            q = qid \<and> s = ''sent'' \<and>
            (\<exists>url p st body row.
               calls = [WebhookPost url p, StatusUpdate qid ''sent''] \<and>
               fetch env url p = Responded st body \<and> response_ok st \<and>
               filter (has_id qid) quotes = [row] \<and>
               map_of row ''status'' \<noteq> Some (JStr ''accepted''))) \<and>
         (quotes' \<noteq> quotes \<longrightarrow> StatusUpdate qid ''sent'' \<in> set calls)"
  using assms
proof (cases rule: sendQuoteByWebhook_cases)
  case (no_post e)
  then show ?thesis by simp
next
  case (failed url p e)
  then show ?thesis by auto
next
  case (refused url p st body)
  then show ?thesis by (auto simp: webhook_error_message_def)
next
  case (accepted url p st body row)
  then show ?thesis by auto
next
  case (sent url p st body row)
  from updateQuoteStatus_cases [OF sent(6)] sent(1-5) show ?thesis
    by auto
qed

theorem sendQuoteByWebhook_status_update_witness:
  "(\<exists>calls. sendQuoteByWebhook (example_env 500) [example_quote] ''q1'' =
      (Inl (Error ''Il server webhook ha risposto con un errore: 500 - boom''), calls,
       [example_quote]) \<and> length calls = 1) \<and>
   (\<exists>r p quotes'. sendQuoteByWebhook (example_env 200) [example_quote] ''q1'' =
      (r, [WebhookPost (JStr ''https://hook.example/q'') p, StatusUpdate ''q1'' ''sent''], quotes') \<and>
      quotes' \<noteq> [example_quote])"
proof -
  have s500: "show_nat 500 = ''500''"
    by code_simp
  obtain r calls quotes' where
    a: "sendQuoteByWebhook (example_env 500) [example_quote] ''q1'' = (r, calls, quotes')"
    by (cases "sendQuoteByWebhook (example_env 500) [example_quote] ''q1''")
  have p: "\<exists>p. calls = [WebhookPost (JStr ''https://hook.example/q'') p]"
    using a
    by (auto simp: sendQuoteByWebhook_def single_def has_id_def example_quote_def example_env_def
        getLeadById_def webhook_url_def response_ok_def Let_def)
  then obtain p where p': "calls = [WebhookPost (JStr ''https://hook.example/q'') p]"
    by blast
  have f: "fetch (example_env 500) (JStr ''https://hook.example/q'') p = Responded 500 ''boom''"
    "\<not> response_ok 500"
    by (simp_all add: example_env_def response_ok_def)
  from sendQuoteByWebhook_status_update [OF a] p' f
  have "r = Inl (Error ''Il server webhook ha risposto con un errore: 500 - boom'')"
    and "quotes' = [example_quote]"
    by (auto simp: s500)
  with a p' have first: "\<exists>calls. sendQuoteByWebhook (example_env 500) [example_quote] ''q1'' =
      (Inl (Error ''Il server webhook ha risposto con un errore: 500 - boom''), calls,
       [example_quote]) \<and> length calls = 1"
    by simp
  obtain r2 calls2 quotes2 where
    b: "sendQuoteByWebhook (example_env 200) [example_quote] ''q1'' = (r2, calls2, quotes2)"
    by (cases "sendQuoteByWebhook (example_env 200) [example_quote] ''q1''")
  have q2: "quotes2 \<noteq> [example_quote]"
    using b
    by (auto simp: sendQuoteByWebhook_def single_def has_id_def example_quote_def example_env_def
        getLeadById_def webhook_url_def response_ok_def Let_def updateQuoteStatus_def
        update_rows_def)
  with sendQuoteByWebhook_status_update [OF b]
  have "StatusUpdate ''q1'' ''sent'' \<in> set calls2"
    by simp
  with sendQuoteByWebhook_status_update [OF b]
  obtain url p2 where "calls2 = [WebhookPost url p2, StatusUpdate ''q1'' ''sent'']"
    by blast
  moreover have "url = JStr ''https://hook.example/q''"
    using b calculation
    by (auto simp: sendQuoteByWebhook_def single_def has_id_def example_quote_def example_env_def
        getLeadById_def webhook_url_def response_ok_def Let_def updateQuoteStatus_def)
  ultimately have "\<exists>r p quotes'. sendQuoteByWebhook (example_env 200) [example_quote] ''q1'' =
      (r, [WebhookPost (JStr ''https://hook.example/q'') p, StatusUpdate ''q1'' ''sent''], quotes') \<and>
      quotes' \<noteq> [example_quote]"
    using b q2 by simp
  with first show ?thesis
    by blast
qed

section \<open>Properties of the sent-notification operations\<close>

lemma in_batch_iff:
  assumes "utc_seconds (sent_at n) \<le> 59" and "utc_millis (sent_at n) \<le> 999"
  shows "in_batch original n \<longleftrightarrow>
           lead_id n = None \<and> title n \<noteq> None \<and> same_batch original n"
  using assms
  by (auto simp: in_batch_def same_batch_def same_minute_def instant_def startTime_def endTime_def
      less_eq_prod_def less_prod_def)

lemma same_batch_groupKey:
  "same_batch a b \<Longrightarrow> groupKey a = groupKey b"
  by (simp add: same_batch_def same_minute_def groupKey_def timeKey_def)

lemma deleteSentNotification_removes_batch:
  "deleteSentNotification None table n = (Inr (), filter (\<lambda>r. \<not> in_batch n r) table)"
  by (simp add: deleteSentNotification_def)

text \<open>
  C5. The listing does not keep apart two batches whose titles and messages differ but
  give the same text once joined with \<open>|\<close>: of the two notifications below, sent in the
  same minute with titles \<open>a|b\<close> and \<open>a\<close> and messages \<open>c\<close> and \<open>b|c\<close>, only one is listed.
\<close>

theorem getSentNotifications_merges_distinct_batches:
  "\<not> same_batch first_notice second_notice \<and>
   getSentNotifications (Response (Some (select_sent [first_notice, second_notice])) None) =
     Inr [second_notice]"
  by code_simp

end
